theory Spec2Isabelle
  imports Complex_Main "HOL-Library.Word"
begin

section \<open>Values of the interpreter\<close>

text \<open>
  The embedding follows \<^verbatim>\<open>aiohomekit/model/characteristics/characteristic.py\<close>.
  Python values are a datatype; a Python \<^verbatim>\<open>str\<close> is the list of its
  Unicode code points, a \<^verbatim>\<open>bytes\<close> object a list of 8-bit words, a Python
  \<^verbatim>\<open>int\<close> an unbounded integer, and a finite Python \<^verbatim>\<open>float\<close> the
  rational number it denotes. Of the containers only the empty list and the empty dict
  (the defaults of the array and dict formats) are in the universe.
\<close>

type_synonym byte = "8 word"
type_synonym bytes = "byte list"
type_synonym pystr = "nat list"

datatype number = PyInt int | PyFloat rat

datatype pyval = PNone | PBool bool | PNum number | PStr pystr | PEmptyList | PEmptyDict

abbreviation PInt :: "int \<Rightarrow> pyval" where
  "PInt n \<equiv> PNum (PyInt n)"

abbreviation PFloat :: "rat \<Rightarrow> pyval" where
  "PFloat r \<equiv> PNum (PyFloat r)"

text \<open>The code points of an ASCII literal.\<close>

definition ustr :: "string \<Rightarrow> pystr" where
  "ustr s = map of_char s"

text \<open>
  Modelled from the spec: the status codes of \<^verbatim>\<open>aiohomekit.protocol.statuscodes\<close>
  (the module is not part of the sources at hand); the four the characteristic raises.
\<close>

datatype HapStatusCodes =
  CANT_WRITE_READ_ONLY | CANT_READ_WRITE_ONLY | INVALID_VALUE | OUT_OF_RESOURCES

text \<open>
  Every exception a run can end with. \<open>FormatError\<close> carries the status code it is
  raised with in \<^verbatim>\<open>set_value\<close>; \<open>FormatError_no_valid\<close> is the
  \<^verbatim>\<open>FormatError('"{v}" is no valid "{t}"!')\<close> of \<^verbatim>\<open>check_convert_value\<close>
  and \<^verbatim>\<open>get_value_for_ble\<close>. \<open>NonFinite\<close> is not an exception of the
  interpreter: it marks a run in which a float infinity or NaN arises, where Python goes on
  with that value and this embedding, whose floats are finite, stops.
\<close>

datatype error =
    CharacteristicPermissionError HapStatusCodes
  | FormatError HapStatusCodes
  | FormatError_no_valid
  | ValueError
  | TypeError
  | AttributeError
  | OverflowError
  | InvalidOperation
  | DivisionByZero
  | struct_error
  | UnicodeDecodeError
  | UnicodeEncodeError
  | binascii_Error
  | TlvParseException
  | NonFinite

fun is_FormatError :: "error \<Rightarrow> bool" where
  "is_FormatError (FormatError s) = True"
| "is_FormatError FormatError_no_valid = True"
| "is_FormatError e = False"

fun num_val :: "number \<Rightarrow> rat" where
  "num_val (PyInt n) = of_int n"
| "num_val (PyFloat r) = r"

text \<open>Python's truth value of an object (\<^verbatim>\<open>if x:\<close>, \<^verbatim>\<open>not x\<close>).\<close>

fun truthy :: "pyval \<Rightarrow> bool" where
  "truthy PNone = False"
| "truthy (PBool b) = b"
| "truthy (PNum x) = (num_val x \<noteq> 0)"
| "truthy (PStr s) = (s \<noteq> [])"
| "truthy PEmptyList = False"
| "truthy PEmptyDict = False"

section \<open>Numbers: rounding, binary floats, decimals\<close>

definition round_half_even :: "rat \<Rightarrow> int" where
  "round_half_even x =
     (let f = \<lfloor>x\<rfloor>; r = x - of_int f in
      if r < 1 / 2 then f else if 1 / 2 < r then f + 1 else if even f then f else f + 1)"

text \<open>\<^verbatim>\<open>ROUND_HALF_UP\<close> of the decimal module: to the nearest, ties away from zero.\<close>

definition round_half_up :: "rat \<Rightarrow> int" where
  "round_half_up x = (if 0 \<le> x then \<lfloor>x + 1 / 2\<rfloor> else - \<lfloor>- x + 1 / 2\<rfloor>)"

definition trunc :: "rat \<Rightarrow> int" where
  "trunc x = (if 0 \<le> x then \<lfloor>x\<rfloor> else - \<lfloor>- x\<rfloor>)"

text \<open>The number of digits of \<open>n > 0\<close> in base \<open>b\<close>.\<close>

function ndigits :: "int \<Rightarrow> int \<Rightarrow> nat" where
  "ndigits b n = (if n \<le> 0 \<or> b < 2 then 0 else Suc (ndigits b (n div b)))"
  by pat_completeness auto
termination
proof (relation "measure (\<lambda>(b, n). nat n)")
  show "wf (measure (\<lambda>(b, n). nat n))"
    by simp
next
  fix b n :: int
  assume a: "\<not> (n \<le> 0 \<or> b < 2)"
  then have "n div b < n"
    by (simp add: int_div_less_self)
  with a show "((b, n div b), (b, n)) \<in> measure (\<lambda>(b, n). nat n)"
    by simp
qed

declare ndigits.simps [simp del]

text \<open>\<open>ilog b x\<close> is the exponent of the leading base-\<open>b\<close> digit of \<open>x \<noteq> 0\<close>:
  \<open>b ^ e \<le> \<bar>x\<bar> < b ^ (e + 1)\<close>. From 1 on it is read off the integer part of \<open>\<bar>x\<bar>\<close>,
  below 1 off the integer part of the reciprocal.\<close>

definition ilog :: "int \<Rightarrow> rat \<Rightarrow> int" where
  "ilog b x =
     (if 1 \<le> \<bar>x\<bar> then int (ndigits b \<lfloor>\<bar>x\<bar>\<rfloor>) - 1
      else let k = int (ndigits b \<lfloor>1 / \<bar>x\<bar>\<rfloor>)
           in if of_int b powi (1 - k) \<le> \<bar>x\<bar> then 1 - k else - k)"

text \<open>
  IEEE 754 round-to-nearest-even to a binary format with \<open>p\<close> bits of precision whose
  least unit is \<open>2 powi emin\<close> (53 and -1074 for a Python float, 24 and -149 for the
  32-bit float of \<^verbatim>\<open>struct\<close>), before any overflow check.
\<close>

definition round_binary :: "nat \<Rightarrow> int \<Rightarrow> rat \<Rightarrow> rat" where
  "round_binary p emin x =
     (if x = 0 then 0
      else let e = max (ilog 2 x - (int p - 1)) emin
           in of_int (round_half_even (x / 2 powi e)) * 2 powi e)"

definition float64 :: "rat \<Rightarrow> rat" where
  "float64 x = round_binary 53 (- 1074) x"

definition float32 :: "rat \<Rightarrow> rat" where
  "float32 x = round_binary 24 (- 149) x"

text \<open>A rounded result of magnitude \<open>2 ^ 1024\<close> or more is an infinity.\<close>

definition to_float :: "rat \<Rightarrow> error + rat" where
  "to_float x = (let y = float64 x in if 2 ^ 1024 \<le> \<bar>y\<bar> then Inl NonFinite else Inr y)"

text \<open>
  \<^verbatim>\<open>str(x)\<close> of a float prints the shortest decimal that reads back as \<open>x\<close>
  (of several, the one nearest to \<open>x\<close>); \<open>float_repr x\<close> is the number that text denotes.
\<close>

definition repr_at :: "nat \<Rightarrow> rat \<Rightarrow> rat option" where
  "repr_at n x =
     (let u = 10 powi (ilog 10 x - (int n - 1));
          lo = of_int \<lfloor>x / u\<rfloor> * u;
          hi = lo + u
      in if float64 lo = x \<and> float64 hi = x then Some (if x - lo \<le> hi - x then lo else hi)
         else if float64 lo = x then Some lo
         else if float64 hi = x then Some hi
         else None)"

fun shortest :: "nat \<Rightarrow> nat \<Rightarrow> rat \<Rightarrow> rat" where
  "shortest 0 n x = x"
| "shortest (Suc k) n x = (case repr_at n x of Some d \<Rightarrow> d | None \<Rightarrow> shortest k (Suc n) x)"

definition float_repr :: "rat \<Rightarrow> rat" where
  "float_repr x = (if x = 0 then 0 else shortest 17 1 x)"

text \<open>
  A finite \<^verbatim>\<open>Decimal\<close> is the rational it denotes. Inside
  \<^verbatim>\<open>localcontext()\<close> with \<^verbatim>\<open>prec = 6\<close> and \<^verbatim>\<open>ROUND_HALF_UP\<close>
  every arithmetic result is rounded to the precision: \<open>round_sig 6\<close>.
\<close>

definition round_sig :: "nat \<Rightarrow> rat \<Rightarrow> rat" where
  "round_sig p x =
     (if x = 0 then 0
      else let u = 10 powi (ilog 10 x - (int p - 1))
           in of_int (round_half_up (x / u)) * u)"

definition dec_sub :: "nat \<Rightarrow> rat \<Rightarrow> rat \<Rightarrow> rat" where
  "dec_sub p a b = round_sig p (a - b)"

definition dec_add :: "nat \<Rightarrow> rat \<Rightarrow> rat \<Rightarrow> rat" where
  "dec_add p a b = round_sig p (a + b)"

definition dec_mul :: "nat \<Rightarrow> rat \<Rightarrow> rat \<Rightarrow> rat" where
  "dec_mul p a b = round_sig p (a * b)"

definition dec_div :: "nat \<Rightarrow> rat \<Rightarrow> rat \<Rightarrow> error + rat" where
  "dec_div p a b =
     (if b = 0 then (if a = 0 then Inl InvalidOperation else Inl DivisionByZero)
      else Inr (round_sig p (a / b)))"

text \<open>
  \<^verbatim>\<open>a % b\<close> in the default context (28 digits): the remainder of the division
  truncated towards zero; \<^verbatim>\<open>InvalidOperation\<close> for a zero divisor and for an integer
  quotient of more than 28 digits. (The last rounding of the remainder to 28 digits, which
  keeps a non-zero remainder non-zero, is left out: the source only tests for zero.)
\<close>

definition dec_rem :: "rat \<Rightarrow> rat \<Rightarrow> error + rat" where
  "dec_rem a b =
     (if b = 0 then Inl InvalidOperation
      else let q = trunc (a / b)
           in if 10 ^ 28 \<le> \<bar>q\<bar> then Inl InvalidOperation else Inr (a - of_int q * b))"

section \<open>Library functions\<close>

text \<open>
  Which texts \<^verbatim>\<open>int()\<close>, \<^verbatim>\<open>float()\<close> and \<^verbatim>\<open>Decimal()\<close> accept
  depends on the interpreter's Unicode tables, \<^verbatim>\<open>base64.decodebytes\<close> on the
  interpreter's version, and \<^verbatim>\<open>TLV.decode_bytes\<close> is code of
  \<^verbatim>\<open>aiohomekit.protocol.tlv\<close>, which is not among the sources at hand. They are
  parameters of the embedding: a \<open>library\<close> is any choice of the five, and every theorem
  holds for all of them. A text is \<open>Invalid\<close> (the conversion raises), \<open>Finite\<close> with
  the number read, or \<open>Special\<close> (an infinity or a NaN). \<open>decodebytes\<close> is \<open>None\<close>
  for \<^verbatim>\<open>binascii.Error\<close>, and \<open>TLV_decode_bytes\<close> is \<open>False\<close> for
  \<^verbatim>\<open>TlvParseException\<close>.
\<close>

datatype literal = Invalid | Finite rat | Special

record library =
  int_str :: "pystr \<Rightarrow> int option"
  float_str :: "pystr \<Rightarrow> literal"
  Decimal_str :: "pystr \<Rightarrow> literal"
  decodebytes :: "bytes \<Rightarrow> bytes option"
  TLV_decode_bytes :: "bytes \<Rightarrow> bool"

text \<open>\<^verbatim>\<open>int(x)\<close>: a float is truncated towards zero.\<close>

fun py_int :: "library \<Rightarrow> pyval \<Rightarrow> error + int" where
  "py_int L PNone = Inl TypeError"
| "py_int L (PBool b) = Inr (if b then 1 else 0)"
| "py_int L (PNum (PyInt n)) = Inr n"
| "py_int L (PNum (PyFloat r)) = Inr (trunc r)"
| "py_int L (PStr s) = (case int_str L s of None \<Rightarrow> Inl ValueError | Some n \<Rightarrow> Inr n)"
| "py_int L PEmptyList = Inl TypeError"
| "py_int L PEmptyDict = Inl TypeError"

text \<open>The float nearest to an int; \<^verbatim>\<open>OverflowError\<close> when there is none.\<close>

definition int_to_float :: "int \<Rightarrow> error + rat" where
  "int_to_float n =
     (let y = float64 (of_int n) in if 2 ^ 1024 \<le> \<bar>y\<bar> then Inl OverflowError else Inr y)"

text \<open>\<^verbatim>\<open>float(x)\<close>.\<close>

fun py_float :: "library \<Rightarrow> pyval \<Rightarrow> error + rat" where
  "py_float L PNone = Inl TypeError"
| "py_float L (PBool b) = Inr (if b then 1 else 0)"
| "py_float L (PNum (PyInt n)) = int_to_float n"
| "py_float L (PNum (PyFloat r)) = Inr r"
| "py_float L (PStr s) =
     (case float_str L s of
        Invalid \<Rightarrow> Inl ValueError
      | Finite r \<Rightarrow> Inr r
      | Special \<Rightarrow> Inl NonFinite)"
| "py_float L PEmptyList = Inl TypeError"
| "py_float L PEmptyDict = Inl TypeError"

text \<open>
  \<^verbatim>\<open>Decimal(x)\<close>: exact for an int and for a float; a text that is no number raises
  \<^verbatim>\<open>decimal.InvalidOperation\<close>, which is an \<^verbatim>\<open>ArithmeticError\<close> and not a
  \<^verbatim>\<open>ValueError\<close>; a list is read as a (sign, digits, exponent) triple, so the empty
  list raises \<^verbatim>\<open>ValueError\<close>.
\<close>

fun Decimal :: "library \<Rightarrow> pyval \<Rightarrow> error + rat" where
  "Decimal L PNone = Inl TypeError"
| "Decimal L (PBool b) = Inr (if b then 1 else 0)"
| "Decimal L (PNum x) = Inr (num_val x)"
| "Decimal L (PStr s) =
     (case Decimal_str L s of
        Invalid \<Rightarrow> Inl InvalidOperation
      | Finite r \<Rightarrow> Inr r
      | Special \<Rightarrow> Inl NonFinite)"
| "Decimal L PEmptyList = Inl ValueError"
| "Decimal L PEmptyDict = Inl TypeError"

text \<open>
  \<^verbatim>\<open>Decimal(str(x))\<close> of a number: the digits of an int are the int, the text of a
  float is its shortest representation.
\<close>

fun Decimal_of_str_of :: "number \<Rightarrow> rat" where
  "Decimal_of_str_of (PyInt n) = of_int n"
| "Decimal_of_str_of (PyFloat r) = float_repr r"

text \<open>
  \<^verbatim>\<open>x - y\<close> on numbers: exact on two ints; with a float among them the int is
  converted and the difference is rounded to a float.
\<close>

fun as_float :: "number \<Rightarrow> error + rat" where
  "as_float (PyInt n) = int_to_float n"
| "as_float (PyFloat r) = Inr r"

fun num_sub :: "number \<Rightarrow> number \<Rightarrow> error + number" where
  "num_sub (PyInt a) (PyInt b) = Inr (PyInt (a - b))"
| "num_sub x y =
     (case as_float x of
        Inl e \<Rightarrow> Inl e
      | Inr a \<Rightarrow>
          (case as_float y of
             Inl e \<Rightarrow> Inl e
           | Inr b \<Rightarrow> (case to_float (a - b) of Inl e \<Rightarrow> Inl e | Inr d \<Rightarrow> Inr (PyFloat d))))"

text \<open>
  \<^verbatim>\<open>max(a, b)\<close> and \<^verbatim>\<open>min(a, b)\<close> where \<open>b\<close> is a number: the first argument
  unless the second is strictly beyond it; comparing a number with \<^verbatim>\<open>None\<close>, a
  text or a container raises \<^verbatim>\<open>TypeError\<close>. A bool compares as 0 or 1.
\<close>

fun as_num :: "pyval \<Rightarrow> rat option" where
  "as_num (PBool b) = Some (if b then 1 else 0)"
| "as_num (PNum x) = Some (num_val x)"
| "as_num v = None"

definition py_max :: "pyval \<Rightarrow> number \<Rightarrow> error + pyval" where
  "py_max a b =
     (case as_num a of
        None \<Rightarrow> Inl TypeError
      | Some x \<Rightarrow> Inr (if x < num_val b then PNum b else a))"

definition py_min :: "pyval \<Rightarrow> number \<Rightarrow> error + pyval" where
  "py_min a b =
     (case as_num a of
        None \<Rightarrow> Inl TypeError
      | Some x \<Rightarrow> Inr (if num_val b < x then PNum b else a))"

subsection \<open>Text\<close>

text \<open>
  \<^verbatim>\<open>distutils.util.strtobool\<close>. Lower-casing is done on the ASCII letters: no other
  code point lower-cases into one of the twelve words.
\<close>

definition lower :: "pystr \<Rightarrow> pystr" where
  "lower s = map (\<lambda>c. if 65 \<le> c \<and> c \<le> 90 then c + 32 else c) s"

definition strtobool :: "pystr \<Rightarrow> error + int" where
  "strtobool val =
     (let val = lower val in
      if val \<in> set (map ustr [''y'', ''yes'', ''t'', ''true'', ''on'', ''1'']) then Inr 1
      else if val \<in> set (map ustr [''n'', ''no'', ''f'', ''false'', ''off'', ''0'']) then Inr 0
      else Inl ValueError)"

text \<open>
  \<^verbatim>\<open>strtobool(str(x))\<close>. The text of an int is \<^verbatim>\<open>'1'\<close> only for 1 and
  \<^verbatim>\<open>'0'\<close> only for 0; the text of a float has a point or an exponent and is none of
  the words.
\<close>

fun strtobool_str :: "pyval \<Rightarrow> error + int" where
  "strtobool_str (PStr s) = strtobool s"
| "strtobool_str (PBool b) = strtobool (ustr (if b then ''True'' else ''False''))"
| "strtobool_str (PNum (PyInt n)) =
     (if n = 1 then Inr 1 else if n = 0 then Inr 0 else Inl ValueError)"
| "strtobool_str (PNum (PyFloat r)) = Inl ValueError"
| "strtobool_str PNone = strtobool (ustr ''None'')"
| "strtobool_str PEmptyList = strtobool (ustr ''[]'')"
| "strtobool_str PEmptyDict = strtobool (ustr ''{}'')"

text \<open>UTF-8, as \<^verbatim>\<open>str.encode()\<close> and \<^verbatim>\<open>bytes.decode("UTF-8")\<close> apply it:
  no surrogates, no overlong forms, nothing beyond U+10FFFF.\<close>

definition utf8_encode_cp :: "nat \<Rightarrow> nat list option" where
  "utf8_encode_cp c =
     (if c < 0x80 then Some [c]
      else if c < 0x800 then Some [0xC0 + c div 64, 0x80 + c mod 64]
      else if c < 0x10000 then
        (if 0xD800 \<le> c \<and> c \<le> 0xDFFF then None
         else Some [0xE0 + c div 4096, 0x80 + (c div 64) mod 64, 0x80 + c mod 64])
      else if c < 0x110000 then
        Some [0xF0 + c div 262144, 0x80 + (c div 4096) mod 64, 0x80 + (c div 64) mod 64,
              0x80 + c mod 64]
      else None)"

fun utf8_encode :: "pystr \<Rightarrow> nat list option" where
  "utf8_encode [] = Some []"
| "utf8_encode (c # cs) =
     (case utf8_encode_cp c of
        None \<Rightarrow> None
      | Some bs \<Rightarrow> (case utf8_encode cs of None \<Rightarrow> None | Some r \<Rightarrow> Some (bs @ r)))"

definition cont :: "nat \<Rightarrow> bool" where
  "cont b = (0x80 \<le> b \<and> b \<le> 0xBF)"

fun utf8_decode :: "nat list \<Rightarrow> pystr option" where
  "utf8_decode [] = Some []"
| "utf8_decode [b] = (if b < 0x80 then Some [b] else None)"
| "utf8_decode [b, b1] =
     (if b < 0x80 then map_option ((#) b) (utf8_decode [b1])
      else if 0xC2 \<le> b \<and> b \<le> 0xDF \<and> cont b1 then Some [(b - 0xC0) * 64 + (b1 - 0x80)]
      else None)"
| "utf8_decode [b, b1, b2] =
     (if b < 0x80 then map_option ((#) b) (utf8_decode [b1, b2])
      else if 0xC2 \<le> b \<and> b \<le> 0xDF \<and> cont b1 then
        map_option ((#) ((b - 0xC0) * 64 + (b1 - 0x80))) (utf8_decode [b2])
      else let c = (b - 0xE0) * 4096 + (b1 - 0x80) * 64 + (b2 - 0x80) in
        if 0xE0 \<le> b \<and> b \<le> 0xEF \<and> cont b1 \<and> cont b2 \<and> 0x800 \<le> c
           \<and> (c < 0xD800 \<or> 0xDFFF < c)
        then Some [c] else None)"
| "utf8_decode (b # b1 # b2 # b3 # bs) =
     (if b < 0x80 then map_option ((#) b) (utf8_decode (b1 # b2 # b3 # bs))
      else if 0xC2 \<le> b \<and> b \<le> 0xDF \<and> cont b1 then
        map_option ((#) ((b - 0xC0) * 64 + (b1 - 0x80))) (utf8_decode (b2 # b3 # bs))
      else let c = (b - 0xE0) * 4096 + (b1 - 0x80) * 64 + (b2 - 0x80);
               d = (b - 0xF0) * 262144 + (b1 - 0x80) * 4096 + (b2 - 0x80) * 64 + (b3 - 0x80) in
        if 0xE0 \<le> b \<and> b \<le> 0xEF \<and> cont b1 \<and> cont b2 \<and> 0x800 \<le> c
           \<and> (c < 0xD800 \<or> 0xDFFF < c)
        then map_option ((#) c) (utf8_decode (b3 # bs))
        else if 0xF0 \<le> b \<and> b \<le> 0xF4 \<and> cont b1 \<and> cont b2 \<and> cont b3 \<and> 0x10000 \<le> d
           \<and> d < 0x110000
        then map_option ((#) d) (utf8_decode bs)
        else None)"

text \<open>\<^verbatim>\<open>x.encode()\<close>: only a \<^verbatim>\<open>str\<close> has the method.\<close>

fun py_encode :: "pyval \<Rightarrow> error + bytes" where
  "py_encode (PStr s) =
     (case utf8_encode s of None \<Rightarrow> Inl UnicodeEncodeError | Some bs \<Rightarrow> Inr (map of_nat bs))"
| "py_encode v = Inl AttributeError"

definition bytes_decode :: "bytes \<Rightarrow> error + pyval" where
  "bytes_decode bs =
     (case utf8_decode (map unat bs) of None \<Rightarrow> Inl UnicodeDecodeError | Some s \<Rightarrow> Inr (PStr s))"

text \<open>\<^verbatim>\<open>bytes.hex()\<close>: two lower-case hexadecimal digits a byte.\<close>

definition hexdigit :: "nat \<Rightarrow> nat" where
  "hexdigit d = (if d < 10 then 48 + d else 87 + d)"

definition bytes_hex :: "bytes \<Rightarrow> pystr" where
  "bytes_hex bs = concat (map (\<lambda>b. [hexdigit (unat b div 16), hexdigit (unat b mod 16)]) bs)"

text \<open>\<^verbatim>\<open>len(x)\<close>.\<close>

fun py_len :: "pyval \<Rightarrow> error + nat" where
  "py_len (PStr s) = Inr (length s)"
| "py_len PEmptyList = Inr 0"
| "py_len PEmptyDict = Inr 0"
| "py_len v = Inl TypeError"

subsection \<open>The struct module, native layout of a little-endian host\<close>

definition le_nat :: "bytes \<Rightarrow> nat" where
  "le_nat bs = foldr (\<lambda>b acc. unat b + 256 * acc) bs 0"

fun le_bytes :: "nat \<Rightarrow> nat \<Rightarrow> bytes" where
  "le_bytes 0 v = []"
| "le_bytes (Suc k) v = of_nat (v mod 256) # le_bytes k (v div 256)"

text \<open>\<^verbatim>\<open>struct.unpack("B" | "H" | "I" | "Q", value)[0]\<close>, for the width in bytes.\<close>

definition unpack_unsigned :: "nat \<Rightarrow> bytes \<Rightarrow> error + pyval" where
  "unpack_unsigned n bs = (if length bs \<noteq> n then Inl struct_error else Inr (PInt (int (le_nat bs))))"

text \<open>\<^verbatim>\<open>struct.unpack("?", value)[0]\<close>: any non-zero byte is true, as the library
  documents it.\<close>

definition unpack_bool :: "bytes \<Rightarrow> error + pyval" where
  "unpack_bool bs = (if length bs \<noteq> 1 then Inl struct_error else Inr (PBool (le_nat bs \<noteq> 0)))"

definition unpack_i :: "bytes \<Rightarrow> error + pyval" where
  "unpack_i bs =
     (if length bs \<noteq> 4 then Inl struct_error
      else let v = int (le_nat bs) in Inr (PInt (if v < 2 ^ 31 then v else v - 2 ^ 32)))"

text \<open>\<^verbatim>\<open>struct.unpack("f", value)[0]\<close>: sign, 8 bits of exponent, 23 of fraction.\<close>

definition unpack_f :: "bytes \<Rightarrow> error + pyval" where
  "unpack_f bs =
     (if length bs \<noteq> 4 then Inl struct_error
      else let w = le_nat bs;
               sgn = (if w div 2 ^ 31 = 0 then 1 else - 1);
               ex = (w div 2 ^ 23) mod 256;
               m = w mod 2 ^ 23
           in if ex = 255 then Inl NonFinite
              else if ex = 0 then Inr (PFloat (sgn * of_nat m * 2 powi (- 149)))
              else Inr (PFloat (sgn * of_nat (2 ^ 23 + m) * 2 powi (int ex - 150))))"

definition pack_bool :: "int \<Rightarrow> bytes" where
  "pack_bool v = [if v = 0 then 0 else 1]"

definition pack_i :: "int \<Rightarrow> error + bytes" where
  "pack_i v =
     (if v < - (2 ^ 31) \<or> 2 ^ 31 \<le> v then Inl struct_error
      else Inr (le_bytes 4 (nat (v mod 2 ^ 32))))"

text \<open>\<^verbatim>\<open>struct.pack("f", x)\<close>: the float is rounded to 32 bits; too large a one is
  packed as an infinity, and one that rounds to zero keeps its sign bit.\<close>

definition pack_f :: "rat \<Rightarrow> bytes" where
  "pack_f x =
     (let y = float32 x;
          s = (if x < 0 then 2 ^ 31 else 0);
          e = ilog 2 y
      in le_bytes 4
           (if y = 0 then s
            else if 2 ^ 128 \<le> \<bar>y\<bar> then s + 255 * 2 ^ 23
            else if e < - 126 then s + nat \<lfloor>\<bar>y\<bar> / 2 powi (- 149)\<rfloor>
            else s + nat (e + 127) * 2 ^ 23 + (nat \<lfloor>\<bar>y\<bar> / 2 powi (e - 23)\<rfloor> - 2 ^ 23)))"

section \<open>The characteristic\<close>

text \<open>
  Modelled from the spec: the format tags of \<^verbatim>\<open>characteristic_formats.py\<close> and the
  permissions of \<^verbatim>\<open>permissions.py\<close>, neither among the sources at hand. The tags are
  the twelve formats of the data model, named as the source names them
  (\<^verbatim>\<open>CharacteristicFormats.bool\<close> is \<open>fmt_bool\<close>, and so on); of the permissions the
  source names \<^verbatim>\<open>paired_read\<close> and \<^verbatim>\<open>paired_write\<close>.
\<close>

datatype CharacteristicFormats =
    fmt_bool | fmt_uint8 | fmt_uint16 | fmt_uint32 | fmt_uint64 | fmt_int | fmt_float
  | fmt_string | fmt_tlv8 | fmt_data | fmt_array | fmt_dict

datatype CharacteristicPermissions =
  paired_read | paired_write | events | other_permission string

fun DEFAULT_FOR_TYPE :: "CharacteristicFormats \<Rightarrow> pyval option" where
  "DEFAULT_FOR_TYPE fmt_bool = Some (PBool False)"
| "DEFAULT_FOR_TYPE fmt_uint8 = Some (PInt 0)"
| "DEFAULT_FOR_TYPE fmt_uint16 = Some (PInt 0)"
| "DEFAULT_FOR_TYPE fmt_uint32 = Some (PInt 0)"
| "DEFAULT_FOR_TYPE fmt_uint64 = Some (PInt 0)"
| "DEFAULT_FOR_TYPE fmt_int = Some (PInt 0)"
| "DEFAULT_FOR_TYPE fmt_float = Some (PFloat 0)"
| "DEFAULT_FOR_TYPE fmt_string = Some (PStr [])"
| "DEFAULT_FOR_TYPE fmt_array = Some PEmptyList"
| "DEFAULT_FOR_TYPE fmt_dict = Some PEmptyDict"
| "DEFAULT_FOR_TYPE f = None"

definition INTEGER_TYPES :: "CharacteristicFormats list" where
  "INTEGER_TYPES = [fmt_uint64, fmt_uint32, fmt_uint16, fmt_uint8, fmt_int]"

definition NUMBER_TYPES :: "CharacteristicFormats list" where
  "NUMBER_TYPES = INTEGER_TYPES @ [fmt_float]"

text \<open>\<^verbatim>\<open>self.format in [...]\<close>; the format of a characteristic may be \<^verbatim>\<open>None\<close>.\<close>

definition format_in :: "CharacteristicFormats option \<Rightarrow> CharacteristicFormats list \<Rightarrow> bool" where
  "format_in f fs = (case f of None \<Rightarrow> False | Some x \<Rightarrow> x \<in> set fs)"

text \<open>
  The attributes of a \<^verbatim>\<open>Characteristic\<close>. The numeric constraints are numbers or
  \<^verbatim>\<open>None\<close>, \<open>valid_values\<close> a list of numbers or \<^verbatim>\<open>None\<close>, as the data model
  types them. The attribute \<^verbatim>\<open>value\<close> is \<open>value'\<close>. The owning service is
  left out: the characteristic only takes its identifier from it.
\<close>

record Characteristic =
  iid :: int
  type :: string
  perms :: "CharacteristicPermissions list"
  format :: "CharacteristicFormats option"
  ev :: "bool option"
  description :: "string option"
  unit :: "string option"
  minValue :: "number option"
  maxValue :: "number option"
  minStep :: "number option"
  maxLen :: nat
  maxDataLen :: nat
  valid_values :: "number list option"
  valid_values_range :: "(number \<times> number) option"
  value' :: pyval

text \<open>
  The keyword arguments of the constructor, and an entry of the table
  \<^verbatim>\<open>characteristics\<close> of \<^verbatim>\<open>data.py\<close> (not among the sources at hand, so the
  entry of the characteristic's type is a parameter): a key that is absent is \<open>None\<close>, a
  key that is present holds the attribute's value.
\<close>

record kwargs =
  kw_perms :: "CharacteristicPermissions list option"
  kw_format :: "CharacteristicFormats option option"
  kw_description :: "string option option"
  kw_unit :: "string option option"
  kw_min_value :: "number option option"
  kw_max_value :: "number option option"
  kw_min_step :: "number option option"
  kw_valid_values :: "number list option option"
  kw_value :: "pyval option"

definition no_kwargs :: kwargs where
  "no_kwargs =
     \<lparr>kw_perms = None, kw_format = None, kw_description = None, kw_unit = None,
      kw_min_value = None, kw_max_value = None, kw_min_step = None, kw_valid_values = None,
      kw_value = None\<rparr>"

text \<open>\<^verbatim>\<open>_get_configuration\<close>, on the key looked up in the keyword arguments and in
  the table entry.\<close>

definition get_configuration :: "'a option \<Rightarrow> 'a option \<Rightarrow> 'a \<Rightarrow> 'a" where
  "get_configuration kw tbl dflt =
     (case kw of
        Some x \<Rightarrow> x
      | None \<Rightarrow> (case tbl of Some x \<Rightarrow> x | None \<Rightarrow> dflt))"

text \<open>\<^verbatim>\<open>DEFAULT_FOR_TYPE.get(self.format, None)\<close>.\<close>

definition format_default :: "CharacteristicFormats option \<Rightarrow> pyval" where
  "format_default f =
     (case f of
        None \<Rightarrow> PNone
      | Some x \<Rightarrow> (case DEFAULT_FOR_TYPE x of None \<Rightarrow> PNone | Some d \<Rightarrow> d))"

text \<open>Lines 102 to 105 and 107 to 110 of \<^verbatim>\<open>__init__\<close>.\<close>

definition init_min :: "number option \<Rightarrow> pyval \<Rightarrow> error + pyval" where
  "init_min minV v =
     (case minV of
        None \<Rightarrow> Inr v
      | Some m \<Rightarrow>
          if num_val m \<noteq> 0 then py_max (if truthy v then v else PNum m) m
          else Inr v)"

definition init_max :: "number option \<Rightarrow> pyval \<Rightarrow> error + pyval" where
  "init_max maxV v =
     (case maxV of
        None \<Rightarrow> Inr v
      | Some m \<Rightarrow>
          if num_val m \<noteq> 0 then py_min (if truthy v then v else PNum m) m
          else Inr v)"

text \<open>
  \<^verbatim>\<open>Characteristic.__init__\<close>, given the identifier the accessory hands out, the
  resolved type, the keyword arguments and the table entry of the type. Lines 64 to 87 set
  the attributes, lines 89 to 110 the value.
\<close>

definition attributes :: "int \<Rightarrow> string \<Rightarrow> kwargs \<Rightarrow> kwargs \<Rightarrow> Characteristic" where
  "attributes next_id ctype kw tbl =
     \<lparr>iid = next_id, type = ctype,
      perms = get_configuration (kw_perms kw) (kw_perms tbl) [paired_read],
      format = get_configuration (kw_format kw) (kw_format tbl) None,
      ev = None,
      description = get_configuration (kw_description kw) (kw_description tbl) None,
      unit = get_configuration (kw_unit kw) (kw_unit tbl) None,
      minValue = get_configuration (kw_min_value kw) (kw_min_value tbl) None,
      maxValue = get_configuration (kw_max_value kw) (kw_max_value tbl) None,
      minStep = get_configuration (kw_min_step kw) (kw_min_step tbl) None,
      maxLen = 64, maxDataLen = 2097152,
      valid_values = get_configuration (kw_valid_values kw) (kw_valid_values tbl) None,
      valid_values_range = None,
      value' = PNone\<rparr>"

definition init_value :: "Characteristic \<Rightarrow> pyval option \<Rightarrow> error + Characteristic" where
  "init_value self explicit =
     (if paired_read \<notin> set (perms self) then Inr self
      else case explicit of
        Some v \<Rightarrow> Inr (self\<lparr>value' := v\<rparr>)
      | None \<Rightarrow>
          (case valid_values self of
             Some (v # vs) \<Rightarrow> Inr (self\<lparr>value' := PNum v\<rparr>)
           | _ \<Rightarrow>
               (case init_min (minValue self) (format_default (format self)) of
                  Inl e \<Rightarrow> Inl e
                | Inr v1 \<Rightarrow>
                    (case init_max (maxValue self) v1 of
                       Inl e \<Rightarrow> Inl e
                     | Inr v2 \<Rightarrow> Inr (self\<lparr>value' := v2\<rparr>)))))"

definition Characteristic_init ::
  "int \<Rightarrow> string \<Rightarrow> kwargs \<Rightarrow> kwargs \<Rightarrow> error + Characteristic" where
  "Characteristic_init next_id ctype kw tbl =
     init_value (attributes next_id ctype kw tbl) (kw_value kw)"

definition set_events :: "Characteristic \<Rightarrow> bool option \<Rightarrow> Characteristic" where
  "set_events self new_val = self\<lparr>ev := new_val\<rparr>"

subsection \<open>\<^verbatim>\<open>set_value\<close>\<close>

text \<open>Lines 142 to 159: the conversion of the input, a \<^verbatim>\<open>ValueError\<close> caught.\<close>

definition caught :: "error \<Rightarrow> error \<Rightarrow> error \<Rightarrow> error" where
  "caught exc handler e = (if e = exc then handler else e)"

definition convert_input ::
  "library \<Rightarrow> CharacteristicFormats option \<Rightarrow> pyval \<Rightarrow> error + pyval" where
  "convert_input L f new_val =
     (if format_in f [fmt_uint64, fmt_uint32, fmt_uint16, fmt_uint8, fmt_int] then
        (case py_int L new_val of
           Inl e \<Rightarrow> Inl (caught ValueError (FormatError INVALID_VALUE) e)
         | Inr n \<Rightarrow> Inr (PInt n))
      else if f = Some fmt_float then
        (case py_float L new_val of
           Inl e \<Rightarrow> Inl (caught ValueError (FormatError INVALID_VALUE) e)
         | Inr r \<Rightarrow> Inr (PFloat r))
      else if f = Some fmt_bool then
        (case strtobool_str new_val of
           Inl e \<Rightarrow> Inl (caught ValueError (FormatError INVALID_VALUE) e)
         | Inr b \<Rightarrow> Inr (PInt b))
      else Inr new_val)"

text \<open>Lines 173 to 182: the step, counted from \<open>minValue\<close> when there is one; the
  difference is Python's own subtraction, the remainder is the decimal one.\<close>

definition step_check :: "Characteristic \<Rightarrow> number \<Rightarrow> error option" where
  "step_check self x =
     (case minStep self of
        None \<Rightarrow> None
      | Some s \<Rightarrow>
          (case (case minValue self of None \<Rightarrow> Inr x | Some m \<Rightarrow> num_sub x m) of
             Inl e \<Rightarrow> Some e
           | Inr tmp \<Rightarrow>
               (case dec_rem (Decimal_of_str_of tmp) (Decimal_of_str_of s) of
                  Inl e \<Rightarrow> Some e
                | Inr r \<Rightarrow> if r \<noteq> 0 then Some (FormatError INVALID_VALUE) else None)))"

text \<open>Lines 161 to 188. After the conversion the value of a numeric format is a number;
  the last case is what a comparison of anything else with a bound would raise.\<close>

definition check_numeric :: "Characteristic \<Rightarrow> pyval \<Rightarrow> error option" where
  "check_numeric self new_val =
     (if format_in (format self)
           [fmt_uint64, fmt_uint32, fmt_uint16, fmt_uint8, fmt_int, fmt_float] then
        (case new_val of
           PNum x \<Rightarrow>
             if (case minValue self of None \<Rightarrow> False | Some m \<Rightarrow> num_val x < num_val m)
             then Some (FormatError INVALID_VALUE)
             else if (case maxValue self of None \<Rightarrow> False | Some m \<Rightarrow> num_val m < num_val x)
             then Some (FormatError INVALID_VALUE)
             else (case step_check self x of
                     Some e \<Rightarrow> Some e
                   | None \<Rightarrow>
                       if (case valid_values self of
                             None \<Rightarrow> False
                           | Some vs \<Rightarrow> num_val x \<notin> set (map num_val vs))
                       then Some (FormatError INVALID_VALUE)
                       else if (case valid_values_range self of
                                  None \<Rightarrow> False
                                | Some (lo, hi) \<Rightarrow>
                                    \<not> (num_val lo \<le> num_val x \<and> num_val x \<le> num_val hi))
                       then Some (FormatError INVALID_VALUE)
                       else None)
         | _ \<Rightarrow> Some TypeError)
      else None)"

text \<open>Lines 190 to 198.\<close>

definition check_data :: "library \<Rightarrow> Characteristic \<Rightarrow> pyval \<Rightarrow> error option" where
  "check_data L self new_val =
     (if format self = Some fmt_data then
        (case py_encode new_val of
           Inl e \<Rightarrow> Some (FormatError OUT_OF_RESOURCES)
         | Inr bs \<Rightarrow>
             (case decodebytes L bs of
                None \<Rightarrow> Some (FormatError INVALID_VALUE)
              | Some byte_data \<Rightarrow>
                  if maxDataLen self < length byte_data then Some (FormatError INVALID_VALUE)
                  else None))
      else None)"

text \<open>Lines 200 to 202.\<close>

definition check_string :: "Characteristic \<Rightarrow> pyval \<Rightarrow> error option" where
  "check_string self new_val =
     (if format self = Some fmt_string then
        (case py_len new_val of
           Inl e \<Rightarrow> Some e
         | Inr n \<Rightarrow> if maxLen self < n then Some (FormatError INVALID_VALUE) else None)
      else None)"

text \<open>
  \<^verbatim>\<open>Characteristic.set_value\<close>: the exception the call ends with, if any, and the
  characteristic after the call.
\<close>

definition set_value ::
  "library \<Rightarrow> Characteristic \<Rightarrow> pyval \<Rightarrow> error option \<times> Characteristic" where
  "set_value L self new_val =
     (if paired_write \<notin> set (perms self)
      then (Some (CharacteristicPermissionError CANT_WRITE_READ_ONLY), self)
      else case convert_input L (format self) new_val of
        Inl e \<Rightarrow> (Some e, self)
      | Inr new_val \<Rightarrow>
          (case check_numeric self new_val of
             Some e \<Rightarrow> (Some e, self)
           | None \<Rightarrow>
               (case check_data L self new_val of
                  Some e \<Rightarrow> (Some e, self)
                | None \<Rightarrow>
                    (case check_string self new_val of
                       Some e \<Rightarrow> (Some e, self)
                     | None \<Rightarrow> (None, self\<lparr>value' := new_val\<rparr>)))))"

subsection \<open>The compact transport\<close>

text \<open>Lines 207 to 224 of \<^verbatim>\<open>set_value_from_ble\<close>: the decoding by format.\<close>

definition ble_decode :: "CharacteristicFormats option \<Rightarrow> bytes \<Rightarrow> error + pyval" where
  "ble_decode f val =
     (if f = Some fmt_bool then unpack_bool val
      else if f = Some fmt_uint8 then unpack_unsigned 1 val
      else if f = Some fmt_uint16 then unpack_unsigned 2 val
      else if f = Some fmt_uint32 then unpack_unsigned 4 val
      else if f = Some fmt_uint64 then unpack_unsigned 8 val
      else if f = Some fmt_int then unpack_i val
      else if f = Some fmt_float then unpack_f val
      else if f = Some fmt_string then bytes_decode val
      else Inr (PStr (bytes_hex val)))"

definition set_value_from_ble ::
  "library \<Rightarrow> Characteristic \<Rightarrow> bytes \<Rightarrow> error option \<times> Characteristic" where
  "set_value_from_ble L self val =
     (case ble_decode (format self) val of
        Inl e \<Rightarrow> (Some e, self)
      | Inr v \<Rightarrow> set_value L self v)"

definition get_value :: "Characteristic \<Rightarrow> error + pyval" where
  "get_value self =
     (if paired_read \<notin> set (perms self)
      then Inl (CharacteristicPermissionError CANT_READ_WRITE_ONLY)
      else Inr (value' self))"

text \<open>\<^verbatim>\<open>get_value_for_ble\<close> returns bytes for four of the formats and the stored
  value itself for every other.\<close>

datatype ble_value = Bytes bytes | Unencoded pyval

definition get_value_for_ble :: "library \<Rightarrow> Characteristic \<Rightarrow> error + ble_value" where
  "get_value_for_ble L self =
     (case get_value self of
        Inl e \<Rightarrow> Inl e
      | Inr v \<Rightarrow>
          if format self = Some fmt_bool then
            (case strtobool_str v of
               Inl e \<Rightarrow> Inl (caught ValueError FormatError_no_valid e)
             | Inr b \<Rightarrow> Inr (Bytes (pack_bool b)))
          else if format self = Some fmt_int then
            (case py_int L v of
               Inl e \<Rightarrow> Inl e
             | Inr n \<Rightarrow> (case pack_i n of Inl e \<Rightarrow> Inl e | Inr bs \<Rightarrow> Inr (Bytes bs)))
          else if format self = Some fmt_float then
            (case py_float L v of Inl e \<Rightarrow> Inl e | Inr r \<Rightarrow> Inr (Bytes (pack_f r)))
          else if format self = Some fmt_string then
            (case py_encode v of Inl e \<Rightarrow> Inl e | Inr bs \<Rightarrow> Inr (Bytes bs))
          else Inr (Unencoded v))"

subsection \<open>The descriptor\<close>

datatype entry =
    E_text string
  | E_int int
  | E_nat nat
  | E_bool bool
  | E_perms "CharacteristicPermissions list"
  | E_format "CharacteristicFormats option"
  | E_value pyval
  | E_number number
  | E_numbers "number list"

text \<open>\<^verbatim>\<open>to_accessory_and_service_list\<close>: the dict, as the list of its items in the
  order of insertion (every key is inserted once).\<close>

definition to_accessory_and_service_list :: "Characteristic \<Rightarrow> (string \<times> entry) list" where
  "to_accessory_and_service_list self =
     [(''type'', E_text (type self)), (''iid'', E_int (iid self)),
      (''perms'', E_perms (perms self)), (''format'', E_format (format self))]
     @ (if paired_read \<in> set (perms self) then [(''value'', E_value (value' self))] else [])
     @ (case ev self of Some True \<Rightarrow> [(''ev'', E_bool True)] | _ \<Rightarrow> [])
     @ (case description self of
          None \<Rightarrow> []
        | Some d \<Rightarrow> if d \<noteq> [] then [(''description'', E_text d)] else [])
     @ (case unit self of
          None \<Rightarrow> []
        | Some u \<Rightarrow> if u \<noteq> [] then [(''unit'', E_text u)] else [])
     @ (case minValue self of
          None \<Rightarrow> []
        | Some m \<Rightarrow> if num_val m \<noteq> 0 then [(''minValue'', E_number m)] else [])
     @ (case maxValue self of
          None \<Rightarrow> []
        | Some m \<Rightarrow> if num_val m \<noteq> 0 then [(''maxValue'', E_number m)] else [])
     @ (case minStep self of
          None \<Rightarrow> []
        | Some m \<Rightarrow> if num_val m \<noteq> 0 then [(''minStep'', E_number m)] else [])
     @ (if maxLen self \<noteq> 0 \<and> format_in (format self) [fmt_string]
        then [(''maxLen'', E_nat (maxLen self))] else [])
     @ (case valid_values self of
          Some (v # vs) \<Rightarrow> [(''valid-values'', E_numbers (v # vs))]
        | _ \<Rightarrow> [])"

subsection \<open>\<^verbatim>\<open>check_convert_value\<close>\<close>

text \<open>Lines 341 to 357: the snap to the step, in the context of 6 digits that rounds
  half up.\<close>

definition snap :: "rat \<Rightarrow> number option \<Rightarrow> number \<Rightarrow> error + rat" where
  "snap val minV s =
     (let offset = (case minV of None \<Rightarrow> 0 | Some m \<Rightarrow> num_val m);
          min_step = num_val s
      in case dec_div 6 (dec_sub 6 val offset) min_step of
           Inl e \<Rightarrow> Inl e
         | Inr q \<Rightarrow> Inr (dec_add 6 offset (dec_mul 6 (of_int (round_half_up q)) min_step)))"

text \<open>Lines 359 to 362, outside the context of 6 digits: the default context rounds
  half to even.\<close>

definition cast :: "CharacteristicFormats option \<Rightarrow> rat \<Rightarrow> error + pyval" where
  "cast f val =
     (if format_in f INTEGER_TYPES then Inr (PInt (round_half_even val))
      else case to_float val of Inl e \<Rightarrow> Inl e | Inr r \<Rightarrow> Inr (PFloat r))"

text \<open>Lines 332 to 336: \<^verbatim>\<open>max(Decimal(char.minValue), val)\<close>, then
  \<^verbatim>\<open>min(Decimal(char.maxValue), val)\<close>.\<close>

definition clamp :: "Characteristic \<Rightarrow> rat \<Rightarrow> rat" where
  "clamp char d =
     (let d1 = (case minValue char of None \<Rightarrow> d | Some m \<Rightarrow> max (num_val m) d)
      in case maxValue char of None \<Rightarrow> d1 | Some m \<Rightarrow> min (num_val m) d1)"

text \<open>Lines 341 to 362.\<close>

definition snap_and_cast :: "Characteristic \<Rightarrow> rat \<Rightarrow> error + pyval" where
  "snap_and_cast char d =
     (case (case minStep char of None \<Rightarrow> Inr d | Some s \<Rightarrow> snap d (minValue char) s) of
        Inl e \<Rightarrow> Inl e
      | Inr d3 \<Rightarrow> cast (format char) d3)"

text \<open>Lines 326 to 362.\<close>

definition convert_number :: "library \<Rightarrow> pyval \<Rightarrow> Characteristic \<Rightarrow> error + pyval" where
  "convert_number L val char =
     (case Decimal L val of
        Inl e \<Rightarrow> Inl (caught ValueError FormatError_no_valid e)
      | Inr d \<Rightarrow> snap_and_cast char (clamp char d))"

text \<open>Lines 364 to 375.\<close>

definition check_blob :: "library \<Rightarrow> pyval \<Rightarrow> Characteristic \<Rightarrow> error option" where
  "check_blob L val char =
     (if format char = Some fmt_data then
        (case py_encode val of
           Inl e \<Rightarrow> Some e
         | Inr bs \<Rightarrow> (case decodebytes L bs of None \<Rightarrow> Some FormatError_no_valid | Some d \<Rightarrow> None))
      else if format char = Some fmt_tlv8 then
        (case py_encode val of
           Inl e \<Rightarrow> Some e
         | Inr bs \<Rightarrow>
             (case decodebytes L bs of
                None \<Rightarrow> Some FormatError_no_valid
              | Some tmp_bytes \<Rightarrow>
                  if TLV_decode_bytes L tmp_bytes then None else Some FormatError_no_valid))
      else None)"

definition check_convert_value :: "library \<Rightarrow> pyval \<Rightarrow> Characteristic \<Rightarrow> error + pyval" where
  "check_convert_value L val char =
     (if format char = Some fmt_bool then
        (case strtobool_str val of
           Inl e \<Rightarrow> Inl (caught ValueError FormatError_no_valid e)
         | Inr b \<Rightarrow> Inr (PInt (if b \<noteq> 0 then 1 else 0)))
      else case (if format_in (format char) NUMBER_TYPES then convert_number L val char
                 else Inr val) of
        Inl e \<Rightarrow> Inl e
      | Inr v \<Rightarrow> (case check_blob L v char of Some e \<Rightarrow> Inl e | None \<Rightarrow> Inr v))"

section \<open>Statements of the specification\<close>

text \<open>The offset of the step: \<open>minValue\<close> when it is set, 0 otherwise.\<close>

definition offset_of :: "Characteristic \<Rightarrow> rat" where
  "offset_of self = (case minValue self of None \<Rightarrow> 0 | Some m \<Rightarrow> num_val m)"

text \<open>\<open>(value - offset) mod step == 0\<close>, in exact arithmetic.\<close>

definition step_multiple :: "rat \<Rightarrow> rat \<Rightarrow> rat \<Rightarrow> bool" where
  "step_multiple v off st = (of_int \<lfloor>(v - off) / st\<rfloor> * st = v - off)"

text \<open>
  The subtraction \<^verbatim>\<open>tmp -= self.minValue\<close> and the two \<^verbatim>\<open>str()\<close> of lines
  174 to 181 lose nothing: the decimals that are compared are \<open>value - offset\<close> and the
  step. It is so whenever the value, the minimum and the step are ints.
\<close>

definition exact_operands :: "Characteristic \<Rightarrow> number \<Rightarrow> number \<Rightarrow> bool" where
  "exact_operands self x s =
     (case (case minValue self of None \<Rightarrow> Inr x | Some m \<Rightarrow> num_sub x m) of
        Inl e \<Rightarrow> False
      | Inr tmp \<Rightarrow>
          Decimal_of_str_of tmp = num_val x - offset_of self \<and> Decimal_of_str_of s = num_val s)"


text \<open>The value passes the range and the enumeration checks of lines 169 to 172 and 183
  to 188.\<close>

definition within_constraints :: "Characteristic \<Rightarrow> number \<Rightarrow> bool" where
  "within_constraints self x =
     ((case minValue self of None \<Rightarrow> True | Some m \<Rightarrow> num_val m \<le> num_val x)
      \<and> (case maxValue self of None \<Rightarrow> True | Some m \<Rightarrow> num_val x \<le> num_val m)
      \<and> (case valid_values self of None \<Rightarrow> True | Some vs \<Rightarrow> num_val x \<in> set (map num_val vs))
      \<and> (case valid_values_range self of
            None \<Rightarrow> True
          | Some (lo, hi) \<Rightarrow> num_val lo \<le> num_val x \<and> num_val x \<le> num_val hi))"

text \<open>
  Round half up, said without a rounding function: \<open>n\<close> is an integer nearest to \<open>q\<close>,
  and of two nearest ones the one away from zero.
\<close>

definition nearest_half_up :: "rat \<Rightarrow> int \<Rightarrow> bool" where
  "nearest_half_up q n =
     (\<bar>q - of_int n\<bar> < 1 / 2 \<or> (\<bar>q - of_int n\<bar> = 1 / 2 \<and> \<bar>q\<bar> < \<bar>of_int n\<bar>))"

text \<open>
  \<open>y\<close> is \<open>x\<close> rounded half up to \<open>p\<close> significant digits, the last of them of weight
  \<open>10 powi e\<close>: the leading digit of \<open>x\<close> has weight \<open>10 powi (e + p - 1)\<close>, \<open>y\<close> is a
  multiple of \<open>10 powi e\<close>, and that multiple is the nearest to \<open>x\<close>, ties away from zero.
  Zero is rounded to zero.
\<close>

definition rounded_at :: "nat \<Rightarrow> int \<Rightarrow> rat \<Rightarrow> rat \<Rightarrow> bool" where
  "rounded_at p e x y =
     ((x = 0 \<and> y = 0)
      \<or> (10 powi (e + int p - 1) \<le> \<bar>x\<bar> \<and> \<bar>x\<bar> < 10 powi (e + int p)
         \<and> of_int \<lfloor>y / 10 powi e\<rfloor> * 10 powi e = y
         \<and> nearest_half_up (x / 10 powi e) \<lfloor>y / 10 powi e\<rfloor>))"

text \<open>\<open>x\<close> has at most \<open>p\<close> significant digits, the last of them of weight \<open>10 powi e\<close>
  or more.\<close>

definition fits :: "nat \<Rightarrow> int \<Rightarrow> rat \<Rightarrow> bool" where
  "fits p e x = (of_int \<lfloor>x / 10 powi e\<rfloor> * 10 powi e = x \<and> \<bar>x\<bar> < 10 powi (e + int p))"

text \<open>
  The clamp: a value above the maximum goes to the maximum; else a value below the minimum
  goes to the minimum, and on to the maximum should that lie below the minimum; any other
  value stays.
\<close>

definition above :: "number option \<Rightarrow> rat \<Rightarrow> bool" where
  "above hi d = (case hi of None \<Rightarrow> False | Some m \<Rightarrow> num_val m < d)"

definition below :: "number option \<Rightarrow> rat \<Rightarrow> bool" where
  "below lo d = (case lo of None \<Rightarrow> False | Some m \<Rightarrow> d < num_val m)"

definition bound :: "number option \<Rightarrow> rat \<Rightarrow> rat" where
  "bound b d = (case b of None \<Rightarrow> d | Some m \<Rightarrow> num_val m)"

definition clamped :: "number option \<Rightarrow> number option \<Rightarrow> rat \<Rightarrow> rat" where
  "clamped lo hi d =
     (if above hi d then bound hi d
      else if below lo d then (if above hi (bound lo d) then bound hi d else bound lo d)
      else d)"

text \<open>The bound is a value of the format: an int for an integer format, a finite float
  for the float format.\<close>

definition native :: "CharacteristicFormats option \<Rightarrow> number \<Rightarrow> bool" where
  "native f m =
     (case m of
        PyInt k \<Rightarrow> format_in f INTEGER_TYPES
      | PyFloat r \<Rightarrow> \<not> format_in f INTEGER_TYPES \<and> to_float r = Inr r)"

text \<open>The result is a \<open>FormatError\<close>.\<close>

definition rejected :: "error + pyval \<Rightarrow> bool" where
  "rejected r = (case r of Inl e \<Rightarrow> is_FormatError e | Inr v \<Rightarrow> False)"

text \<open>
  The initial value as the constructor computes it: nothing without the read permission;
  else the explicit value; else the first of a non-empty \<open>valid_values\<close>; else the default
  of the format, which a non-zero \<open>minValue\<close> replaces, and which a non-zero \<open>maxValue\<close>
  replaces when no non-zero \<open>minValue\<close> did, and caps otherwise. A bound that is 0 counts
  as no bound.
\<close>

definition bound_set :: "number option \<Rightarrow> bool" where
  "bound_set b = (case b of None \<Rightarrow> False | Some m \<Rightarrow> num_val m \<noteq> 0)"

definition bounded_default ::
  "CharacteristicFormats option \<Rightarrow> number option \<Rightarrow> number option \<Rightarrow> pyval" where
  "bounded_default f lo hi =
     (if bound_set lo then
        (case lo of
           None \<Rightarrow> PNone
         | Some l \<Rightarrow>
             (case hi of
                None \<Rightarrow> PNum l
              | Some h \<Rightarrow> if num_val h \<noteq> 0 \<and> num_val h < num_val l then PNum h else PNum l))
      else if bound_set hi then (case hi of None \<Rightarrow> PNone | Some h \<Rightarrow> PNum h)
      else format_default f)"

definition initial_value :: "Characteristic \<Rightarrow> pyval option \<Rightarrow> pyval" where
  "initial_value self explicit =
     (if paired_read \<notin> set (perms self) then PNone
      else case explicit of
        Some v \<Rightarrow> v
      | None \<Rightarrow>
          (case valid_values self of
             Some (v # vs) \<Rightarrow> PNum v
           | _ \<Rightarrow> bounded_default (format self) (minValue self) (maxValue self)))"

section \<open>Sample characteristics and a sample library\<close>

text \<open>An unsigned 8-bit level from 0 to 100 in steps of 10, readable and writable.\<close>

definition percent :: Characteristic where
  "percent =
     \<lparr>iid = 1, type = ''8'', perms = [paired_read, paired_write], format = Some fmt_uint8,
      ev = None, description = None, unit = None,
      minValue = Some (PyInt 0), maxValue = Some (PyInt 100), minStep = Some (PyInt 10),
      maxLen = 64, maxDataLen = 2097152, valid_values = None, valid_values_range = None,
      value' = PInt 0\<rparr>"

text \<open>The same format with only an upper bound of 100, holding 5.\<close>

definition capped :: Characteristic where
  "capped = percent\<lparr>minValue := None, minStep := None, value' := PInt 5\<rparr>"


definition write_only :: Characteristic where
  "write_only = capped\<lparr>perms := [paired_write], value' := PNone\<rparr>"

text \<open>A float level from 1 upwards in steps of 10, and an unsigned 64-bit level in steps
  of 2 without bounds.\<close>

definition float_stepped :: Characteristic where
  "float_stepped =
     capped\<lparr>format := Some fmt_float, minValue := Some (PyInt 1), maxValue := None,
            minStep := Some (PyInt 10)\<rparr>"

definition even_only :: Characteristic where
  "even_only = capped\<lparr>format := Some fmt_uint64, maxValue := None, minStep := Some (PyInt 2)\<rparr>"

text \<open>An unsigned 32-bit level in steps of 3 without bounds, and the level of 0 to 100 in
  steps of 10 with its maximum lowered to 95.\<close>

definition thirds :: Characteristic where
  "thirds = capped\<lparr>format := Some fmt_uint32, maxValue := None, minStep := Some (PyInt 3)\<rparr>"

definition capped_95 :: Characteristic where
  "capped_95 = percent\<lparr>maxValue := Some (PyInt 95)\<rparr>"

text \<open>The keyword arguments that construct them.\<close>

definition capped_kwargs :: kwargs where
  "capped_kwargs =
     no_kwargs\<lparr>kw_perms := Some [paired_read, paired_write], kw_format := Some (Some fmt_uint8),
               kw_max_value := Some (Some (PyInt 100))\<rparr>"

text \<open>A reader of plain decimal numerals (sign, digits, point, digits), for
  \<^verbatim>\<open>Decimal(text)\<close>; anything else it takes for no number.\<close>

definition is_digit :: "nat \<Rightarrow> bool" where
  "is_digit c = (48 \<le> c \<and> c \<le> 57)"

definition digits_val :: "pystr \<Rightarrow> nat" where
  "digits_val ds = foldl (\<lambda>a c. 10 * a + (c - 48)) 0 ds"

definition plain_unsigned :: "pystr \<Rightarrow> literal" where
  "plain_unsigned s =
     (let ip = takeWhile is_digit s; r = dropWhile is_digit s;
          fp = (case r of [] \<Rightarrow> [] | c # t \<Rightarrow> if c = 46 then takeWhile is_digit t else []);
          rest = (case r of [] \<Rightarrow> [] | c # t \<Rightarrow> if c = 46 then dropWhile is_digit t else r)
      in if rest = [] \<and> ip @ fp \<noteq> [] then Finite (of_nat (digits_val (ip @ fp)) / 10 ^ length fp)
         else Invalid)"

definition plain_decimal :: "pystr \<Rightarrow> literal" where
  "plain_decimal s =
     (case s of
        [] \<Rightarrow> Invalid
      | c # t \<Rightarrow>
          if c = 45 then (case plain_unsigned t of Finite r \<Rightarrow> Finite (- r) | l \<Rightarrow> l)
          else if c = 43 then plain_unsigned t
          else plain_unsigned s)"

definition plain_int :: "pystr \<Rightarrow> int option" where
  "plain_int s =
     (let body = (case s of [] \<Rightarrow> [] | c # t \<Rightarrow> if c = 45 \<or> c = 43 then t else s)
      in if body \<noteq> [] \<and> list_all is_digit body
         then Some ((case s of [] \<Rightarrow> 1 | c # t \<Rightarrow> if c = 45 then - 1 else 1) * int (digits_val body))
         else None)"

definition plain_float :: "pystr \<Rightarrow> literal" where
  "plain_float s =
     (case plain_decimal s of
        Finite r \<Rightarrow> (case to_float r of Inl e \<Rightarrow> Special | Inr y \<Rightarrow> Finite y)
      | l \<Rightarrow> l)"

text \<open>
  \<^verbatim>\<open>binascii.a2b_base64\<close> as CPython 3.11 decodes in its default mode: characters
  outside the alphabet are skipped, padding that completes a quadruple ends the input, and
  an incomplete quadruple at the end is an error.
\<close>

definition b64_val :: "nat \<Rightarrow> nat option" where
  "b64_val c =
     (if 65 \<le> c \<and> c \<le> 90 then Some (c - 65)
      else if 97 \<le> c \<and> c \<le> 122 then Some (c - 71)
      else if 48 \<le> c \<and> c \<le> 57 then Some (c + 4)
      else if c = 43 then Some 62
      else if c = 47 then Some 63
      else None)"

fun a2b_base64 :: "nat list \<Rightarrow> nat \<Rightarrow> nat \<Rightarrow> nat \<Rightarrow> nat list \<Rightarrow> nat list option" where
  "a2b_base64 [] quad_pos leftchar pads out = (if quad_pos = 0 then Some out else None)"
| "a2b_base64 (c # cs) quad_pos leftchar pads out =
     (if c = 61 then
        (if 2 \<le> quad_pos \<and> 4 \<le> quad_pos + (pads + 1) then Some out
         else a2b_base64 cs quad_pos leftchar (if 2 \<le> quad_pos then pads + 1 else pads) out)
      else case b64_val c of
        None \<Rightarrow> a2b_base64 cs quad_pos leftchar pads out
      | Some v \<Rightarrow>
          if quad_pos = 0 then a2b_base64 cs 1 v 0 out
          else if quad_pos = 1 then
            a2b_base64 cs 2 (v mod 16) 0 (out @ [leftchar * 4 + v div 16])
          else if quad_pos = 2 then
            a2b_base64 cs 3 (v mod 4) 0 (out @ [leftchar * 16 + v div 4])
          else a2b_base64 cs 0 0 0 (out @ [leftchar * 64 + v]))"

definition plain_decodebytes :: "bytes \<Rightarrow> bytes option" where
  "plain_decodebytes bs = map_option (map of_nat) (a2b_base64 (map unat bs) 0 0 0 [])"

text \<open>A sequence of items, each a tag byte, a length byte and that many bytes.\<close>

fun tlv_items :: "nat \<Rightarrow> bytes \<Rightarrow> bool" where
  "tlv_items fuel [] = True"
| "tlv_items 0 (t # r) = False"
| "tlv_items (Suc fuel) [t] = False"
| "tlv_items (Suc fuel) (t # l # r) = (unat l \<le> length r \<and> tlv_items fuel (drop (unat l) r))"

text \<open>
  The sample library: plain numerals, the base64 decoder above, and a check of
  tag-length-value items. It agrees with the interpreter on the inputs of the examples
  below; the theorems do not depend on it.
\<close>

definition plain_library :: library where
  "plain_library =
     \<lparr>int_str = plain_int, float_str = plain_float, Decimal_str = plain_decimal,
      decodebytes = plain_decodebytes, TLV_decode_bytes = (\<lambda>bs. tlv_items (length bs) bs)\<rparr>"

section \<open>Evaluation\<close>

lemma floor_numeral_div [simp]:
  "\<lfloor>(numeral a :: rat) / numeral b\<rfloor> = numeral a div numeral b"
  using floor_divide_of_int_eq [of "numeral a" "numeral b", where ?'a = rat] by simp

lemma floor_neg_numeral_div [simp]:
  "\<lfloor>- ((numeral a :: rat) / numeral b)\<rfloor> = - numeral a div numeral b"
  using floor_divide_of_int_eq [of "- numeral a" "numeral b", where ?'a = rat] by simp

lemmas set_value_eval =
  set_value_def convert_input_def format_in_def check_numeric_def step_check_def
  check_data_def check_string_def dec_rem_def trunc_def caught_def

lemma percent_55: "set_value L percent (PInt 55) = (Some (FormatError INVALID_VALUE), percent)"
  by (simp add: set_value_eval percent_def)

lemma percent_50: "set_value L percent (PInt 50) = (None, percent\<lparr>value' := PInt 50\<rparr>)"
  by (simp add: set_value_eval percent_def)

section \<open>A failing write changes nothing\<close>

text \<open>
  C8. Whenever \<open>set_value\<close> ends with an exception (a permission violation, a format
  violation or any other), the characteristic after the call is the characteristic before
  it: every check precedes the one assignment to the value.
\<close>

theorem set_value_failure_keeps_state:
  "fst (set_value L self new_val) = Some e \<Longrightarrow> snd (set_value L self new_val) = self"
  by (simp add: set_value_def split: if_split_asm sum.split_asm option.split_asm)

theorem set_value_failure_keeps_state_witness:
  "\<forall>L. fst (set_value L percent (PInt 55)) = Some (FormatError INVALID_VALUE)
     \<and> snd (set_value L percent (PInt 55)) = percent"
proof (intro allI)
  fix L
  have f: "fst (set_value L percent (PInt 55)) = Some (FormatError INVALID_VALUE)"
    by (simp add: percent_55)
  show "fst (set_value L percent (PInt 55)) = Some (FormatError INVALID_VALUE)
     \<and> snd (set_value L percent (PInt 55)) = percent"
    by (intro conjI f set_value_failure_keeps_state [OF f])
qed

section \<open>The descriptor\<close>

lemma descriptor_keys:
  "''minValue'' \<in> fst ` set (to_accessory_and_service_list self) \<longleftrightarrow> bound_set (minValue self)"
  "''maxValue'' \<in> fst ` set (to_accessory_and_service_list self) \<longleftrightarrow> bound_set (maxValue self)"
  "''minStep'' \<in> fst ` set (to_accessory_and_service_list self) \<longleftrightarrow> bound_set (minStep self)"
  "''value'' \<in> fst ` set (to_accessory_and_service_list self) \<longleftrightarrow> paired_read \<in> set (perms self)"
  by (auto simp add: to_accessory_and_service_list_def bound_set_def image_iff
      split: option.splits list.splits bool.splits if_splits)

lemma descriptor_zero_same:
  assumes "num_val m = 0"
  shows "to_accessory_and_service_list (self\<lparr>minValue := Some m\<rparr>)
           = to_accessory_and_service_list (self\<lparr>minValue := None\<rparr>)"
    and "to_accessory_and_service_list (self\<lparr>maxValue := Some m\<rparr>)
           = to_accessory_and_service_list (self\<lparr>maxValue := None\<rparr>)"
    and "to_accessory_and_service_list (self\<lparr>minStep := Some m\<rparr>)
           = to_accessory_and_service_list (self\<lparr>minStep := None\<rparr>)"
  using assms by (simp_all add: to_accessory_and_service_list_def)

lemma descriptor_value:
  "paired_read \<in> set (perms self) \<Longrightarrow>
     map_of (to_accessory_and_service_list self) ''value'' = Some (E_value (value' self))"
  by (simp add: to_accessory_and_service_list_def)

text \<open>
  C10. A constraint that is set to 0 is left out of the descriptor: the field is absent,
  and the descriptor is the one of the characteristic without the constraint. With the read
  permission the descriptor always has the field \<open>value\<close>, holding the stored value, be
  it \<open>None\<close>.
\<close>

theorem descriptor_zero_constraints:
  "(num_val m = 0 \<longrightarrow>
      map_of (to_accessory_and_service_list (self\<lparr>minValue := Some m\<rparr>)) ''minValue'' = None
    \<and> map_of (to_accessory_and_service_list (self\<lparr>maxValue := Some m\<rparr>)) ''maxValue'' = None
    \<and> map_of (to_accessory_and_service_list (self\<lparr>minStep := Some m\<rparr>)) ''minStep'' = None
    \<and> to_accessory_and_service_list (self\<lparr>minValue := Some m\<rparr>)
        = to_accessory_and_service_list (self\<lparr>minValue := None\<rparr>)
    \<and> to_accessory_and_service_list (self\<lparr>maxValue := Some m\<rparr>)
        = to_accessory_and_service_list (self\<lparr>maxValue := None\<rparr>)
    \<and> to_accessory_and_service_list (self\<lparr>minStep := Some m\<rparr>)
        = to_accessory_and_service_list (self\<lparr>minStep := None\<rparr>))
   \<and> (paired_read \<in> set (perms self) \<longrightarrow>
        map_of (to_accessory_and_service_list self) ''value'' = Some (E_value (value' self)))"
proof (intro conjI impI)
  assume z: "num_val m = 0"
  show "map_of (to_accessory_and_service_list (self\<lparr>minValue := Some m\<rparr>)) ''minValue'' = None"
    using z by (simp add: map_of_eq_None_iff descriptor_keys bound_set_def)
  show "map_of (to_accessory_and_service_list (self\<lparr>maxValue := Some m\<rparr>)) ''maxValue'' = None"
    using z by (simp add: map_of_eq_None_iff descriptor_keys bound_set_def)
  show "map_of (to_accessory_and_service_list (self\<lparr>minStep := Some m\<rparr>)) ''minStep'' = None"
    using z by (simp add: map_of_eq_None_iff descriptor_keys bound_set_def)
  show "to_accessory_and_service_list (self\<lparr>minValue := Some m\<rparr>)
        = to_accessory_and_service_list (self\<lparr>minValue := None\<rparr>)"
    using z by (rule descriptor_zero_same)
  show "to_accessory_and_service_list (self\<lparr>maxValue := Some m\<rparr>)
        = to_accessory_and_service_list (self\<lparr>maxValue := None\<rparr>)"
    using z by (rule descriptor_zero_same)
  show "to_accessory_and_service_list (self\<lparr>minStep := Some m\<rparr>)
        = to_accessory_and_service_list (self\<lparr>minStep := None\<rparr>)"
    using z by (rule descriptor_zero_same)
next
  assume "paired_read \<in> set (perms self)"
  then show "map_of (to_accessory_and_service_list self) ''value'' = Some (E_value (value' self))"
    by (rule descriptor_value)
qed

theorem descriptor_zero_constraints_witness:
  "num_val (PyInt 0) = 0
   \<and> map_of (to_accessory_and_service_list (percent\<lparr>value' := PNone, minValue := Some (PyInt 0)\<rparr>))
        ''minValue'' = None
   \<and> paired_read \<in> set (perms (percent\<lparr>value' := PNone\<rparr>))
   \<and> map_of (to_accessory_and_service_list (percent\<lparr>value' := PNone\<rparr>)) ''value''
        = Some (E_value PNone)"
proof -
  note t = descriptor_zero_constraints [of "PyInt 0" "percent\<lparr>value' := PNone\<rparr>"]
  have z: "num_val (PyInt 0) = 0"
    by simp
  have r: "paired_read \<in> set (perms (percent\<lparr>value' := PNone\<rparr>))"
    by (simp add: percent_def)
  have v: "value' (percent\<lparr>value' := PNone\<rparr>) = PNone"
    by simp
  note a = conjunct1 [OF mp [OF conjunct1 [OF t] z]]
  note b = mp [OF conjunct2 [OF t] r, unfolded v]
  show ?thesis
    by (intro conjI z a r b)
qed

section \<open>The value of a characteristic that cannot be read\<close>

lemma init_write_only:
  "Characteristic_init 1 ''8'' (capped_kwargs\<lparr>kw_perms := Some [paired_write]\<rparr>) no_kwargs
     = Inr write_only"
  by (simp add: Characteristic_init_def attributes_def init_value_def capped_kwargs_def
      no_kwargs_def get_configuration_def write_only_def capped_def percent_def)

lemma write_only_5:
  "set_value L write_only (PInt 5) = (None, write_only\<lparr>value' := PInt 5\<rparr>)"
  by (simp add: set_value_eval write_only_def capped_def percent_def)

lemma init_value_perms: "init_value self explicit = Inr c \<Longrightarrow> perms c = perms self"
  by (auto simp add: init_value_def
      split: if_split_asm option.split_asm list.split_asm sum.split_asm)

lemma init_no_read:
  assumes "Characteristic_init n t kw tbl = Inr c" and "paired_read \<notin> set (perms c)"
  shows "value' c = PNone"
proof -
  from assms(1) have i: "init_value (attributes n t kw tbl) (kw_value kw) = Inr c"
    by (simp add: Characteristic_init_def)
  with assms(2) have "paired_read \<notin> set (perms (attributes n t kw tbl))"
    by (simp add: init_value_perms)
  with i have "c = attributes n t kw tbl"
    by (simp add: init_value_def)
  then show ?thesis
    by (simp add: attributes_def)
qed

lemma set_value_stores_converted:
  "fst (set_value L self v) = None \<Longrightarrow>
     convert_input L (format self) v = Inr (value' (snd (set_value L self v)))"
  by (simp add: set_value_def split: if_split_asm sum.split_asm option.split_asm)

text \<open>
  C6, as the claim states it, fails: a write-only characteristic is constructed with no
  value, and a successful \<open>set_value\<close> stores 5 in it.
\<close>

theorem write_only_value_counterexample:
  "Characteristic_init 1 ''8'' (capped_kwargs\<lparr>kw_perms := Some [paired_write]\<rparr>) no_kwargs
     = Inr write_only
   \<and> paired_read \<notin> set (perms write_only)
   \<and> value' write_only = PNone
   \<and> fst (set_value plain_library write_only (PInt 5)) = None
   \<and> value' (snd (set_value plain_library write_only (PInt 5))) = PInt 5
   \<and> PInt 5 \<noteq> PNone"
  by (simp add: init_write_only write_only_5) (simp add: write_only_def)

text \<open>
  C6, amended. A characteristic without the read permission is constructed with the value
  \<open>None\<close>; whatever is stored later is never handed out: \<open>get_value\<close> and
  \<open>get_value_for_ble\<close> raise \<open>CharacteristicPermissionError\<close> and the descriptor has
  no field \<open>value\<close>. A failing \<open>set_value\<close> keeps the stored value, a successful one
  stores the converted input.
\<close>

theorem write_only_value:
  "(Characteristic_init n t kw tbl = Inr c \<and> paired_read \<notin> set (perms c) \<longrightarrow> value' c = PNone)
   \<and> (paired_read \<notin> set (perms self) \<longrightarrow>
        get_value self = Inl (CharacteristicPermissionError CANT_READ_WRITE_ONLY)
      \<and> get_value_for_ble L self = Inl (CharacteristicPermissionError CANT_READ_WRITE_ONLY)
      \<and> map_of (to_accessory_and_service_list self) ''value'' = None
      \<and> (fst (set_value L self v) = Some e \<longrightarrow> value' (snd (set_value L self v)) = value' self)
      \<and> (fst (set_value L self v) = None \<longrightarrow>
            convert_input L (format self) v = Inr (value' (snd (set_value L self v)))))"
proof (intro conjI impI)
  assume "Characteristic_init n t kw tbl = Inr c \<and> paired_read \<notin> set (perms c)"
  then show "value' c = PNone"
    using init_no_read by blast
next
  assume r: "paired_read \<notin> set (perms self)"
  show "get_value self = Inl (CharacteristicPermissionError CANT_READ_WRITE_ONLY)"
    using r by (simp add: get_value_def)
  show "get_value_for_ble L self = Inl (CharacteristicPermissionError CANT_READ_WRITE_ONLY)"
    using r by (simp add: get_value_for_ble_def get_value_def)
  show "map_of (to_accessory_and_service_list self) ''value'' = None"
    using r by (simp add: map_of_eq_None_iff descriptor_keys)
next
  assume "fst (set_value L self v) = Some e"
  then show "value' (snd (set_value L self v)) = value' self"
    by (simp add: set_value_def split: if_split_asm sum.split_asm option.split_asm)
next
  assume "fst (set_value L self v) = None"
  then show "convert_input L (format self) v = Inr (value' (snd (set_value L self v)))"
    by (rule set_value_stores_converted)
qed

theorem write_only_value_witness:
  "Characteristic_init 1 ''8'' (capped_kwargs\<lparr>kw_perms := Some [paired_write]\<rparr>) no_kwargs
     = Inr write_only
   \<and> paired_read \<notin> set (perms write_only)
   \<and> value' write_only = PNone
   \<and> get_value write_only = Inl (CharacteristicPermissionError CANT_READ_WRITE_ONLY)
   \<and> map_of (to_accessory_and_service_list write_only) ''value'' = None
   \<and> fst (set_value plain_library write_only (PInt 5)) = None
   \<and> convert_input plain_library (format write_only) (PInt 5)
       = Inr (value' (snd (set_value plain_library write_only (PInt 5))))"
proof -
  note t = write_only_value [of 1 "''8''" "capped_kwargs\<lparr>kw_perms := Some [paired_write]\<rparr>"
      no_kwargs write_only write_only plain_library "PInt 5"]
  have i: "Characteristic_init 1 ''8'' (capped_kwargs\<lparr>kw_perms := Some [paired_write]\<rparr>) no_kwargs
     = Inr write_only"
    by (rule init_write_only)
  have r: "paired_read \<notin> set (perms write_only)"
    by (simp add: write_only_def)
  have s: "fst (set_value plain_library write_only (PInt 5)) = None"
    by (simp add: write_only_5)
  note a = mp [OF conjunct1 [OF t] conjI [OF i r]]
  note b = mp [OF conjunct2 [OF t] r]
  note b1 = conjunct1 [OF b]
  note b3 = conjunct1 [OF conjunct2 [OF conjunct2 [OF b]]]
  note b5 = mp [OF conjunct2 [OF conjunct2 [OF conjunct2 [OF conjunct2 [OF b]]]] s]
  show ?thesis
    by (intro conjI i r a b1 b3 s b5)
qed

section \<open>The compact transport applies the strict write path\<close>









section \<open>The encoding for the compact transport\<close>

lemma le_bytes_4:
  "le_bytes 4 v
     = [of_nat (v mod 256), of_nat (v div 256 mod 256), of_nat (v div 256 div 256 mod 256),
        of_nat (v div 256 div 256 div 256 mod 256)]"
proof -
  have "(4::nat) = Suc (Suc (Suc (Suc 0)))"
    by simp
  then have "le_bytes 4 v = le_bytes (Suc (Suc (Suc (Suc 0)))) v"
    by (simp only:)
  then show ?thesis
    by simp
qed

text \<open>
  C2. At an unsigned 8-bit characteristic holding 5, \<open>get_value_for_ble\<close> hands back
  the stored number itself and no bytes, so there is nothing \<open>set_value_from_ble\<close> could
  unpack; the byte that encodes 5 decodes to 5 and is stored, and for the signed 32-bit
  format the encoder does produce the four bytes.
\<close>

theorem get_value_for_ble_unsigned_unencoded:
  "get_value_for_ble plain_library capped = Inr (Unencoded (PInt 5))
   \<and> set_value_from_ble plain_library capped [5] = (None, capped)
   \<and> get_value_for_ble plain_library (capped\<lparr>format := Some fmt_int\<rparr>) = Inr (Bytes [5, 0, 0, 0])
   \<and> set_value_from_ble plain_library (capped\<lparr>format := Some fmt_int\<rparr>) [5, 0, 0, 0]
       = (None, capped\<lparr>format := Some fmt_int\<rparr>)"
proof (intro conjI)
  show "get_value_for_ble plain_library capped = Inr (Unencoded (PInt 5))"
    by (simp add: get_value_for_ble_def get_value_def capped_def percent_def)
  show "set_value_from_ble plain_library capped [5] = (None, capped)"
    by (simp add: set_value_from_ble_def ble_decode_def unpack_unsigned_def le_nat_def
        set_value_eval capped_def percent_def)
  show "get_value_for_ble plain_library (capped\<lparr>format := Some fmt_int\<rparr>)
      = Inr (Bytes [5, 0, 0, 0])"
    by (simp add: get_value_for_ble_def get_value_def pack_i_def le_bytes_4
        capped_def percent_def)
  show "set_value_from_ble plain_library (capped\<lparr>format := Some fmt_int\<rparr>) [5, 0, 0, 0]
       = (None, capped\<lparr>format := Some fmt_int\<rparr>)"
    by (simp add: set_value_from_ble_def ble_decode_def unpack_i_def le_nat_def
        set_value_eval capped_def percent_def)
qed

section \<open>A text that is no number\<close>

text \<open>
  C7. For a numeric format and a text that \<open>Decimal\<close> does not accept,
  \<open>check_convert_value\<close> ends with \<open>decimal.InvalidOperation\<close>, which the handler
  for \<open>ValueError\<close> does not catch: no \<open>FormatError\<close> is raised.
\<close>

theorem unparsable_text_raises_InvalidOperation:
  "format_in (format char) NUMBER_TYPES \<Longrightarrow> Decimal_str L s = Invalid \<Longrightarrow>
     check_convert_value L (PStr s) char = Inl InvalidOperation
     \<and> \<not> is_FormatError InvalidOperation"
  by (auto simp add: check_convert_value_def convert_number_def caught_def format_in_def
      NUMBER_TYPES_def INTEGER_TYPES_def split: option.splits)

theorem unparsable_text_raises_InvalidOperation_witness:
  "format_in (format percent) NUMBER_TYPES
   \<and> Decimal_str plain_library (ustr ''abc'') = Invalid
   \<and> check_convert_value plain_library (PStr (ustr ''abc'')) percent = Inl InvalidOperation
   \<and> \<not> is_FormatError InvalidOperation"
proof -
  have f: "format_in (format percent) NUMBER_TYPES"
    by (simp add: percent_def format_in_def NUMBER_TYPES_def INTEGER_TYPES_def)
  have d: "Decimal_str plain_library (ustr ''abc'') = Invalid"
    by (simp add: plain_library_def plain_decimal_def plain_unsigned_def ustr_def is_digit_def)
  note t = unparsable_text_raises_InvalidOperation [OF f d]
  show ?thesis
    by (intro conjI f d conjunct1 [OF t] conjunct2 [OF t])
qed

section \<open>The initial value\<close>

lemma default_falsy: "\<not> truthy (format_default f)"
proof (cases f)
  case None
  then show ?thesis by (simp add: format_default_def)
next
  case (Some x)
  then show ?thesis by (cases x) (simp_all add: format_default_def)
qed

lemma init_min_default:
  "init_min lo (format_default f)
     = Inr (case lo of
              None \<Rightarrow> format_default f
            | Some l \<Rightarrow> if num_val l \<noteq> 0 then PNum l else format_default f)"
  using default_falsy [of f]
  by (simp add: init_min_def py_max_def split: option.split)

lemma init_max_default:
  "init_max hi (format_default f)
     = Inr (case hi of
              None \<Rightarrow> format_default f
            | Some h \<Rightarrow> if num_val h \<noteq> 0 then PNum h else format_default f)"
  using default_falsy [of f]
  by (simp add: init_max_def py_min_def split: option.split)

lemma init_max_number:
  "num_val l \<noteq> 0 \<Longrightarrow>
     init_max hi (PNum l)
       = Inr (case hi of
                None \<Rightarrow> PNum l
              | Some h \<Rightarrow> if num_val h \<noteq> 0 \<and> num_val h < num_val l then PNum h else PNum l)"
  by (simp add: init_max_def py_min_def split: option.split)

lemma init_bounds:
  "(case init_min lo (format_default f) of
      Inl e \<Rightarrow> Inl e
    | Inr v1 \<Rightarrow> (case init_max hi v1 of Inl e \<Rightarrow> Inl e | Inr v2 \<Rightarrow> Inr (self\<lparr>value' := v2\<rparr>)))
   = Inr (self\<lparr>value' := bounded_default f lo hi\<rparr>)"
proof (cases "bound_set lo")
  case True
  then obtain l where l: "lo = Some l" "num_val l \<noteq> 0"
    by (auto simp add: bound_set_def split: option.splits)
  then show ?thesis
    by (simp add: init_min_default init_max_number bounded_default_def bound_set_def
        split: option.split)
next
  case False
  then have "init_min lo (format_default f) = Inr (format_default f)"
    by (simp add: init_min_default bound_set_def split: option.splits)
  with False show ?thesis
    by (simp add: init_max_default bounded_default_def bound_set_def split: option.split)
qed

lemma init_value_initial:
  assumes "value' self = PNone"
  shows "init_value self explicit = Inr (self\<lparr>value' := initial_value self explicit\<rparr>)"
proof (cases "paired_read \<in> set (perms self)")
  case False
  with assms show ?thesis
    by (cases self) (simp add: init_value_def initial_value_def)
next
  case True
  show ?thesis
  proof (cases explicit)
    case (Some v)
    with True show ?thesis
      by (simp add: init_value_def initial_value_def)
  next
    case None
    show ?thesis
    proof (cases "valid_values self")
      case n: None
      with True None show ?thesis
        by (simp add: init_value_def initial_value_def init_bounds)
    next
      case s: (Some vs)
      with True None show ?thesis
        by (cases vs) (simp_all add: init_value_def initial_value_def init_bounds)
    qed
  qed
qed

lemma init_capped:
  "Characteristic_init 1 ''8'' capped_kwargs no_kwargs = Inr (capped\<lparr>value' := PInt 100\<rparr>)"
  by (simp add: Characteristic_init_def attributes_def init_value_def capped_kwargs_def
      no_kwargs_def get_configuration_def capped_def percent_def init_min_def init_max_def
      py_min_def format_default_def)

text \<open>
  C3, as the claim states it, fails: with \<open>maxValue = 100\<close> and no \<open>minValue\<close> the
  default 0 of the unsigned 8-bit format lies in the range, and the initial value is 100.
\<close>

theorem initial_value_counterexample:
  "kw_value capped_kwargs = None \<and> kw_valid_values capped_kwargs = None
   \<and> kw_min_value capped_kwargs = None \<and> kw_max_value capped_kwargs = Some (Some (PyInt 100))
   \<and> format_default (Some fmt_uint8) = PInt 0
   \<and> Characteristic_init 1 ''8'' capped_kwargs no_kwargs = Inr (capped\<lparr>value' := PInt 100\<rparr>)
   \<and> value' (capped\<lparr>value' := PInt 100\<rparr>) = PInt 100
   \<and> PInt 100 \<noteq> PInt 0"
  by (simp add: init_capped) (simp add: capped_kwargs_def no_kwargs_def format_default_def)

text \<open>
  C3, amended. The constructor never fails, and the value it leaves is \<open>initial_value\<close>:
  \<open>None\<close> without the read permission; else the explicit initial value; else the first
  element of a non-empty \<open>valid_values\<close>; else the format default (false, 0, 0.0, the
  empty text, list and dict, \<open>None\<close> for the blobs), which a non-zero \<open>minValue\<close>
  replaces (a smaller non-zero \<open>maxValue\<close> then caps it) and which, without a non-zero
  \<open>minValue\<close>, a non-zero \<open>maxValue\<close> replaces.
\<close>

theorem initial_value_computed:
  "Characteristic_init n t kw tbl
     = Inr ((attributes n t kw tbl)
              \<lparr>value' := initial_value (attributes n t kw tbl) (kw_value kw)\<rparr>)"
proof -
  have "value' (attributes n t kw tbl) = PNone"
    by (simp add: attributes_def)
  then show ?thesis
    unfolding Characteristic_init_def by (rule init_value_initial)
qed

theorem initial_value_computed_example:
  "Characteristic_init 1 ''8'' capped_kwargs no_kwargs = Inr (capped\<lparr>value' := PInt 100\<rparr>)
   \<and> initial_value (attributes 1 ''8'' capped_kwargs no_kwargs) (kw_value capped_kwargs)
       = PInt 100"
proof -
  note t = initial_value_computed [where n = 1 and t = "''8''" and kw = capped_kwargs
      and tbl = no_kwargs]
  have "value' (capped\<lparr>value' := PInt 100\<rparr>) = PInt 100"
    by simp
  with t [unfolded init_capped] show ?thesis
    by (simp add: init_capped)
qed

section \<open>The lenient pipeline\<close>

lemma numeric_not_other:
  assumes "format_in f NUMBER_TYPES"
  shows "f \<noteq> Some fmt_bool" and "f \<noteq> Some fmt_data" and "f \<noteq> Some fmt_tlv8"
    and "f \<noteq> Some fmt_string"
  using assms by (auto simp add: format_in_def NUMBER_TYPES_def INTEGER_TYPES_def)

lemma check_blob_numeric: "format_in (format char) NUMBER_TYPES \<Longrightarrow> check_blob L v char = None"
  by (simp add: check_blob_def numeric_not_other)

lemma check_convert_numeric:
  assumes "format_in (format char) NUMBER_TYPES"
  shows "check_convert_value L val char = convert_number L val char"
proof (cases "convert_number L val char")
  case (Inl e)
  with assms show ?thesis
    by (simp add: check_convert_value_def numeric_not_other)
next
  case (Inr v)
  with assms show ?thesis
    by (simp add: check_convert_value_def numeric_not_other check_blob_numeric)
qed

lemma convert_number_ignores_enumeration:
  "convert_number L val (char\<lparr>valid_values := vv, valid_values_range := vr\<rparr>)
     = convert_number L val char"
  by (simp add: convert_number_def clamp_def snap_and_cast_def split: sum.split option.split)

lemma check_blob_ignores_enumeration:
  "check_blob L v (char\<lparr>valid_values := vv, valid_values_range := vr\<rparr>) = check_blob L v char"
  by (simp add: check_blob_def)

lemma check_convert_ignores_enumeration:
  "check_convert_value L val (char\<lparr>valid_values := vv, valid_values_range := vr\<rparr>)
     = check_convert_value L val char"
  by (simp add: check_convert_value_def convert_number_ignores_enumeration
      check_blob_ignores_enumeration split: sum.split option.split)

section \<open>Rounding half up\<close>

text \<open>
  The digit count and the exponent of the leading digit are what their names say, and
  the two roundings of the decimal context are the roundings as stated: to the nearest
  integer, and to the nearest number of \<open>p\<close> significant digits, ties away from zero.
\<close>

lemma ndigits_bounds:
  "2 \<le> b \<Longrightarrow> 0 < n \<Longrightarrow> b ^ (ndigits b n - 1) \<le> n \<and> n < b ^ ndigits b n"
proof (induction b n rule: ndigits.induct)
  case (1 b n)
  from "1.prems" have g: "\<not> (n \<le> 0 \<or> b < 2)"
    by simp
  have nd: "ndigits b n = Suc (ndigits b (n div b))"
    using g by (simp add: ndigits.simps [of b n])
  have split: "n = b * (n div b) + n mod b"
    by simp
  have m: "0 \<le> n mod b" "n mod b < b"
    using "1.prems" by simp_all
  show ?case
  proof (cases "n div b \<le> 0")
    case True
    then have z: "ndigits b (n div b) = 0"
      by (simp add: ndigits.simps [of b "n div b"])
    have "0 \<le> n div b"
      using "1.prems" by (simp add: pos_imp_zdiv_nonneg_iff)
    with True have "n div b = 0"
      by simp
    with split m have "n < b"
      by simp
    have z0: "ndigits b 0 = 0"
      by (simp add: ndigits.simps [of b 0])
    from \<open>n < b\<close> "1.prems" show ?thesis
      by (simp add: nd z z0 \<open>n div b = 0\<close>)
  next
    case False
    then have pos: "0 < n div b"
      by simp
    let ?k = "ndigits b (n div b)"
    from "1.IH" [OF g "1.prems"(1) pos]
    have ih: "b ^ (?k - 1) \<le> n div b" "n div b < b ^ ?k"
      by simp_all
    have "?k = Suc (ndigits b (n div b div b))"
      using pos "1.prems" by (simp add: ndigits.simps [of b "n div b"])
    then obtain j where k: "?k = Suc j"
      by blast
    have "b ^ ?k = b * b ^ (?k - 1)"
      by (simp add: k)
    also have "\<dots> \<le> b * (n div b)"
      using ih(1) "1.prems" by (simp add: mult_left_mono)
    also have "\<dots> \<le> n"
      using split m by linarith
    finally have lower: "b ^ ?k \<le> n" .
    have "n div b + 1 \<le> b ^ ?k"
      using ih(2) by simp
    then have le: "b * (n div b + 1) \<le> b * b ^ ?k"
      using "1.prems" by (simp add: mult_left_mono)
    have "b * (n div b + 1) = b * (n div b) + b"
      by (simp add: distrib_left)
    then have "n < b * (n div b + 1)"
      using split m by linarith
    with le have upper: "n < b ^ Suc ?k"
      by simp
    from lower upper show ?thesis
      by (simp add: nd)
  qed
qed

lemma ndigits_pos: "2 \<le> b \<Longrightarrow> 0 < n \<Longrightarrow> 0 < ndigits b n"
  by (simp add: ndigits.simps [of b n])

lemma ilog_bounds:
  fixes x :: rat
  assumes b: "2 \<le> b" and x: "x \<noteq> 0"
  shows "of_int b powi ilog b x \<le> \<bar>x\<bar>" and "\<bar>x\<bar> < of_int b powi (ilog b x + 1)"
proof -
  have b1: "(1::rat) < of_int b"
    using b by simp
  have both: "of_int b powi ilog b x \<le> \<bar>x\<bar> \<and> \<bar>x\<bar> < of_int b powi (ilog b x + 1)"
  proof (cases "1 \<le> \<bar>x\<bar>")
    case True
    let ?n = "\<lfloor>\<bar>x\<bar>\<rfloor>"
    let ?k = "ndigits b ?n"
    have n: "0 < ?n"
      using True by simp
    note nb = ndigits_bounds [OF b n]
    have kp: "0 < ?k"
      by (rule ndigits_pos [OF b n])
    have il: "ilog b x = int ?k - 1"
      using True by (simp add: ilog_def)
    have e1: "of_int b powi (int ?k - 1) = (of_int (b ^ (?k - 1)) :: rat)"
      using kp by (simp add: power_int_def nat_diff_distrib)
    have e2: "of_int b powi (int ?k - 1 + 1) = (of_int (b ^ ?k) :: rat)"
      by simp
    have "(of_int (b ^ (?k - 1)) :: rat) \<le> of_int ?n"
      using nb by (simp only: of_int_le_iff)
    also have "\<dots> \<le> \<bar>x\<bar>"
      by (rule of_int_floor_le)
    finally have lo: "(of_int (b ^ (?k - 1)) :: rat) \<le> \<bar>x\<bar>" .
    have "?n + 1 \<le> b ^ ?k"
      using nb by simp
    then have "(of_int (?n + 1) :: rat) \<le> of_int (b ^ ?k)"
      by (simp only: of_int_le_iff)
    moreover have "\<bar>x\<bar> < of_int (?n + 1)"
      using floor_correct [of "\<bar>x\<bar>"] by simp
    ultimately have hi: "\<bar>x\<bar> < (of_int (b ^ ?k) :: rat)"
      by (rule less_le_trans [rotated])
    show ?thesis
      unfolding il e1 e2 using lo hi by simp
  next
    case False
    define y where "y = 1 / \<bar>x\<bar>"
    have ax: "0 < \<bar>x\<bar>" "\<bar>x\<bar> < 1"
      using x False by simp_all
    have y1: "1 < y"
      using ax by (simp add: y_def)
    let ?n = "\<lfloor>y\<rfloor>"
    let ?k = "ndigits b ?n"
    have n: "0 < ?n"
      using y1 by simp
    note nb = ndigits_bounds [OF b n]
    have kp: "0 < ?k"
      by (rule ndigits_pos [OF b n])
    have "(of_int (b ^ (?k - 1)) :: rat) \<le> of_int ?n"
      using nb by (simp only: of_int_le_iff)
    also have "\<dots> \<le> y"
      by (rule of_int_floor_le)
    finally have lo: "(of_int b :: rat) ^ (?k - 1) \<le> y"
      by simp
    have "?n + 1 \<le> b ^ ?k"
      using nb by simp
    then have "(of_int (?n + 1) :: rat) \<le> of_int (b ^ ?k)"
      by (simp only: of_int_le_iff)
    moreover have "y < of_int (?n + 1)"
      using floor_correct [of y] by simp
    ultimately have hi: "y < (of_int b :: rat) ^ ?k"
      by simp
    have p1: "of_int b powi (1 - int ?k) = 1 / (of_int b :: rat) ^ (?k - 1)"
      using kp power_int_minus_divide [of "of_int b :: rat" "int ?k - 1"]
      by (simp add: power_int_def nat_diff_distrib)
    have p0: "of_int b powi (- int ?k) = 1 / (of_int b :: rat) ^ ?k"
      using power_int_minus_divide [of "of_int b :: rat" "int ?k"] by simp
    have bp: "0 < (of_int b :: rat) ^ ?k" "0 < (of_int b :: rat) ^ (?k - 1)"
      using b1 by simp_all
    have up: "\<bar>x\<bar> \<le> of_int b powi (1 - int ?k)"
      unfolding p1 using lo ax bp by (simp add: y_def field_simps)
    have dn: "of_int b powi (- int ?k) < \<bar>x\<bar>"
      unfolding p0 using hi ax bp by (simp add: y_def field_simps)
    show ?thesis
    proof (cases "of_int b powi (1 - int ?k) \<le> \<bar>x\<bar>")
      case True
      then have il: "ilog b x = 1 - int ?k"
        using False by (simp add: ilog_def y_def Let_def)
      have "of_int b powi (1 - int ?k) < (of_int b :: rat) powi (1 - int ?k + 1)"
        by (rule power_int_strict_increasing) (use b in simp_all)
      with up True show ?thesis
        unfolding il by simp
    next
      case F: False
      then have il: "ilog b x = - int ?k"
        using False by (simp add: ilog_def y_def Let_def)
      have "- int ?k + 1 = 1 - int ?k"
        by simp
      with dn F show ?thesis
        unfolding il by simp
    qed
  qed
  from both show "of_int b powi ilog b x \<le> \<bar>x\<bar>" and "\<bar>x\<bar> < of_int b powi (ilog b x + 1)"
    by simp_all
qed

lemma round_half_up_nearest: "nearest_half_up q (round_half_up q)"
proof (cases "0 \<le> q")
  case True
  define a :: rat where "a = of_int \<lfloor>q + 1 / 2\<rfloor>"
  have f: "a \<le> q + 1 / 2" "q + 1 / 2 < a + 1"
    using floor_correct [of "q + 1 / 2"] by (simp_all add: a_def)
  have r: "of_int (round_half_up q) = a"
    using True by (simp add: round_half_up_def a_def)
  have "\<bar>q - a\<bar> < 1 / 2 \<or> (\<bar>q - a\<bar> = 1 / 2 \<and> \<bar>q\<bar> < \<bar>a\<bar>)"
  proof (cases "q - a = - (1 / 2)")
    case tie: True
    with True have "\<bar>q - a\<bar> = 1 / 2" "\<bar>q\<bar> < \<bar>a\<bar>"
      by linarith+
    then show ?thesis
      by simp
  next
    case False
    with f have "\<bar>q - a\<bar> < 1 / 2"
      by linarith
    then show ?thesis
      by simp
  qed
  then show ?thesis
    unfolding nearest_half_up_def r .
next
  case False
  define a :: rat where "a = of_int \<lfloor>- q + 1 / 2\<rfloor>"
  have f: "a \<le> - q + 1 / 2" "- q + 1 / 2 < a + 1"
    using floor_correct [of "- q + 1 / 2"] by (simp_all add: a_def)
  have r: "of_int (round_half_up q) = - a"
    using False by (simp add: round_half_up_def a_def)
  have "\<bar>q - (- a)\<bar> < 1 / 2 \<or> (\<bar>q - (- a)\<bar> = 1 / 2 \<and> \<bar>q\<bar> < \<bar>- a\<bar>)"
  proof (cases "q + a = 1 / 2")
    case tie: True
    with False have "\<bar>q - (- a)\<bar> = 1 / 2" "\<bar>q\<bar> < \<bar>- a\<bar>"
      by linarith+
    then show ?thesis
      by simp
  next
    case ntie: False
    with f have "\<bar>q - (- a)\<bar> < 1 / 2"
      by linarith
    then show ?thesis
      by simp
  qed
  then show ?thesis
    unfolding nearest_half_up_def r .
qed

lemma nearest_half_up_less:
  assumes n: "nearest_half_up q n" and m: "nearest_half_up q m" and l: "n < m"
  shows False
proof -
  define a :: rat where "a = of_int n"
  define b :: rat where "b = of_int m"
  have ab: "a + 1 \<le> b"
    using l unfolding a_def b_def by (metis of_int_1 of_int_add of_int_le_iff zless_imp_add1_zle)
  have na: "\<bar>q - a\<bar> < 1 / 2 \<or> (\<bar>q - a\<bar> = 1 / 2 \<and> \<bar>q\<bar> < \<bar>a\<bar>)"
    using n by (simp add: nearest_half_up_def a_def)
  have mb: "\<bar>q - b\<bar> < 1 / 2 \<or> (\<bar>q - b\<bar> = 1 / 2 \<and> \<bar>q\<bar> < \<bar>b\<bar>)"
    using m by (simp add: nearest_half_up_def b_def)
  from na mb ab have t: "q = a + 1 / 2" "b = a + 1" "\<bar>q\<bar> < \<bar>a\<bar>" "\<bar>q\<bar> < \<bar>b\<bar>"
    by (auto simp add: abs_if split: if_splits)
  have "0 \<le> n \<or> n \<le> - 1"
    by linarith
  then have "0 \<le> a \<or> a \<le> - 1"
    unfolding a_def by (metis of_int_0_le_iff of_int_1 of_int_le_iff of_int_minus)
  with t show False
    by (auto simp add: abs_if split: if_splits)
qed

lemma nearest_half_up_unique:
  assumes "nearest_half_up q n" and "nearest_half_up q m"
  shows "n = m"
proof (rule ccontr)
  assume "n \<noteq> m"
  then consider "n < m" | "m < n"
    by linarith
  then show False
  proof cases
    case 1
    then show ?thesis
      by (rule nearest_half_up_less [OF assms])
  next
    case 2
    then show ?thesis
      by (rule nearest_half_up_less [OF assms(2,1)])
  qed
qed

lemma round_half_up_of_int: "round_half_up (of_int k) = k"
  by (rule nearest_half_up_unique [OF round_half_up_nearest]) (simp add: nearest_half_up_def)

lemma power_int_10_less_imp: "(10::rat) powi a < 10 powi b \<Longrightarrow> a < b"
proof (rule ccontr)
  assume l: "(10::rat) powi a < 10 powi b" and "\<not> a < b"
  then have "b \<le> a"
    by simp
  then have "(10::rat) powi b \<le> 10 powi a"
    by (rule power_int_increasing) simp
  with l show False
    by simp
qed

lemma round_sig_rounded: "rounded_at p (ilog 10 x - (int p - 1)) x (round_sig p x)"
proof (cases "x = 0")
  case True
  then show ?thesis
    by (simp add: rounded_at_def round_sig_def)
next
  case False
  define e where "e = ilog 10 x - (int p - 1)"
  define n where "n = round_half_up (x / 10 powi e)"
  have i: "e + int p - 1 = ilog 10 x" "e + int p = ilog 10 x + 1"
    by (simp_all add: e_def)
  have b: "10 powi (e + int p - 1) \<le> \<bar>x\<bar>" "\<bar>x\<bar> < 10 powi (e + int p)"
    unfolding i using ilog_bounds [of 10 x] False by simp_all
  have y: "round_sig p x = of_int n * 10 powi e"
    using False by (simp add: round_sig_def Let_def e_def n_def)
  have q: "of_int n * 10 powi e / 10 powi e = (of_int n :: rat)"
    by simp
  have "nearest_half_up (x / 10 powi e) n"
    unfolding n_def by (rule round_half_up_nearest)
  with b show ?thesis
    unfolding rounded_at_def e_def [symmetric] y q by simp
qed

lemma rounded_at_unique:
  assumes "rounded_at p e x y" and "rounded_at p e' x y'"
  shows "y = y'"
proof (cases "x = 0")
  case True
  have "\<not> (10::rat) powi k \<le> 0" for k
    by (simp add: not_le)
  with True assms show ?thesis
    by (simp add: rounded_at_def)
next
  case False
  from assms(1) False have a: "10 powi (e + int p - 1) \<le> \<bar>x\<bar>" "\<bar>x\<bar> < 10 powi (e + int p)"
    "of_int \<lfloor>y / 10 powi e\<rfloor> * 10 powi e = y" "nearest_half_up (x / 10 powi e) \<lfloor>y / 10 powi e\<rfloor>"
    by (simp_all add: rounded_at_def)
  from assms(2) False have b: "10 powi (e' + int p - 1) \<le> \<bar>x\<bar>" "\<bar>x\<bar> < 10 powi (e' + int p)"
    "of_int \<lfloor>y' / 10 powi e'\<rfloor> * 10 powi e' = y'"
    "nearest_half_up (x / 10 powi e') \<lfloor>y' / 10 powi e'\<rfloor>"
    by (simp_all add: rounded_at_def)
  have "(10::rat) powi (e + int p - 1) < 10 powi (e' + int p)"
    using a(1) b(2) by (rule le_less_trans)
  then have 1: "e + int p - 1 < e' + int p"
    by (rule power_int_10_less_imp)
  have "(10::rat) powi (e' + int p - 1) < 10 powi (e + int p)"
    using b(1) a(2) by (rule le_less_trans)
  then have 2: "e' + int p - 1 < e + int p"
    by (rule power_int_10_less_imp)
  from 1 2 have e: "e' = e"
    by simp
  have f: "\<lfloor>y / 10 powi e\<rfloor> = \<lfloor>y' / 10 powi e\<rfloor>"
    using a(4) b(4) unfolding e by (rule nearest_half_up_unique)
  have "y = of_int \<lfloor>y / 10 powi e\<rfloor> * 10 powi e"
    using a(3) by (rule sym)
  also have "\<dots> = of_int \<lfloor>y' / 10 powi e\<rfloor> * 10 powi e"
    by (simp only: f)
  also have "\<dots> = y'"
    using b(3) unfolding e .
  finally show ?thesis .
qed

lemma fits_round_sig:
  assumes "fits p e x"
  shows "round_sig p x = x"
proof (cases "x = 0")
  case True
  then show ?thesis
    by (simp add: round_sig_def)
next
  case False
  define n where "n = \<lfloor>x / 10 powi e\<rfloor>"
  define E where "E = ilog 10 x - (int p - 1)"
  from assms have x: "x = of_int n * 10 powi e" and u: "\<bar>x\<bar> < 10 powi (e + int p)"
    by (simp_all add: fits_def n_def)
  have "(10::rat) powi ilog 10 x \<le> \<bar>x\<bar>"
    using ilog_bounds(1) [of 10 x] False by simp
  then have "(10::rat) powi ilog 10 x < 10 powi (e + int p)"
    using u by (rule le_less_trans)
  then have "ilog 10 x < e + int p"
    by (rule power_int_10_less_imp)
  then have le: "0 \<le> e - E"
    by (simp add: E_def)
  have "(10::rat) powi e = 10 powi (e - E) * 10 powi E"
    by (simp flip: power_int_add)
  also have "(10::rat) powi (e - E) = of_int (10 ^ nat (e - E))"
    using le by (simp add: power_int_def)
  finally have "x / 10 powi E = of_int (n * 10 ^ nat (e - E))"
    unfolding x by simp
  then have "round_half_up (x / 10 powi E) = n * 10 ^ nat (e - E)"
    by (simp only: round_half_up_of_int)
  then have "round_sig p x = of_int (n * 10 ^ nat (e - E)) * 10 powi E"
    using False by (simp add: round_sig_def Let_def E_def)
  also have "\<dots> = of_int n * (10 powi (e - E) * 10 powi E)"
    using le by (simp add: power_int_def)
  also have "\<dots> = x"
    unfolding x by (simp flip: power_int_add)
  finally show ?thesis .
qed

section \<open>The lenient pipeline: clamp and step\<close>

text \<open>The clamp of lines 332 to 336 is the clamp as stated.\<close>

lemma clamp_clamped: "clamp char d = clamped (minValue char) (maxValue char) d"
  by (auto simp add: clamp_def clamped_def above_def below_def bound_def Let_def
      split: option.splits)

lemma round_half_even_of_int: "round_half_even (of_int k) = k"
  by (simp add: round_half_even_def)

lemma cast_native: "native f m \<Longrightarrow> cast f (num_val m) = Inr (PNum m)"
  by (cases m) (simp_all add: native_def cast_def round_half_even_of_int)

lemma cast_not_rejected: "\<not> rejected (cast f v)"
  by (simp add: rejected_def cast_def to_float_def Let_def)

lemma snap_not_rejected:
  "\<not> rejected (case snap v lo s of Inl e \<Rightarrow> Inl e | Inr r \<Rightarrow> cast f r)"
  by (simp add: snap_def dec_div_def Let_def rejected_def cast_def to_float_def)

lemma snap_value:
  "num_val s \<noteq> 0 \<Longrightarrow>
     snap v (minValue char) s
       = Inr (round_sig 6 (offset_of char
                + round_sig 6 (of_int (round_half_up
                    (round_sig 6 (round_sig 6 (v - offset_of char) / num_val s))) * num_val s)))"
  by (simp add: snap_def offset_of_def dec_div_def dec_sub_def dec_add_def dec_mul_def Let_def)

lemma snap_zero_step:
  "num_val s = 0 \<Longrightarrow>
     snap v (minValue char) s
       = Inl (if round_sig 6 (v - offset_of char) = 0 then InvalidOperation else DivisionByZero)"
  by (simp add: snap_def offset_of_def dec_div_def dec_sub_def Let_def)

lemma convert_number_step:
  assumes "format_in (format char) NUMBER_TYPES" and "Decimal L val = Inr d"
    and "minStep char = Some s"
  shows "check_convert_value L val char
     = (case snap (clamp char d) (minValue char) s of
          Inl e \<Rightarrow> Inl e
        | Inr r \<Rightarrow> cast (format char) r)"
  using assms(2,3)
  by (simp add: check_convert_numeric [OF assms(1)] convert_number_def snap_and_cast_def)

lemma convert_number_no_step:
  assumes "format_in (format char) NUMBER_TYPES" and "Decimal L val = Inr d"
    and "minStep char = None"
  shows "check_convert_value L val char = cast (format char) (clamp char d)"
  using assms(2,3)
  by (simp add: check_convert_numeric [OF assms(1)] convert_number_def snap_and_cast_def)

lemma convert_not_rejected:
  assumes "format_in (format char) NUMBER_TYPES" and "Decimal L val = Inr d"
  shows "\<not> rejected (check_convert_value L val char)"
proof (cases "minStep char")
  case None
  show ?thesis
    unfolding convert_number_no_step [OF assms None] by (rule cast_not_rejected)
next
  case (Some s)
  show ?thesis
    unfolding convert_number_step [OF assms Some] by (rule snap_not_rejected)
qed

text \<open>
  With a step that is not 0 the result is the cast of a number \<open>r\<close> reached from the
  clamped value by four roundings to 6 significant digits and one to the nearest integer,
  each of them half up.
\<close>

lemma snapped_chain:
  assumes "format_in (format char) NUMBER_TYPES" and "Decimal L val = Inr d"
    and "minStep char = Some s" and "num_val s \<noteq> 0"
  shows "\<exists>e1 d1 e2 d2 n e3 d3 e4 r.
        rounded_at 6 e1 (clamped (minValue char) (maxValue char) d - offset_of char) d1
        \<and> rounded_at 6 e2 (d1 / num_val s) d2
        \<and> nearest_half_up d2 n
        \<and> rounded_at 6 e3 (of_int n * num_val s) d3
        \<and> rounded_at 6 e4 (offset_of char + d3) r
        \<and> check_convert_value L val char = cast (format char) r"
proof -
  define v where "v = clamped (minValue char) (maxValue char) d"
  define d1 where "d1 = round_sig 6 (v - offset_of char)"
  define d2 where "d2 = round_sig 6 (d1 / num_val s)"
  define d3 where "d3 = round_sig 6 (of_int (round_half_up d2) * num_val s)"
  define r where "r = round_sig 6 (offset_of char + d3)"
  have c: "check_convert_value L val char = cast (format char) r"
    by (simp add: convert_number_step [OF assms(1-3)] snap_value [OF assms(4)] clamp_clamped
        r_def d3_def d2_def d1_def v_def)
  have "rounded_at 6 (ilog 10 (v - offset_of char) - (int 6 - 1)) (v - offset_of char) d1"
    unfolding d1_def by (rule round_sig_rounded)
  moreover have "rounded_at 6 (ilog 10 (d1 / num_val s) - (int 6 - 1)) (d1 / num_val s) d2"
    unfolding d2_def by (rule round_sig_rounded)
  moreover have "nearest_half_up d2 (round_half_up d2)"
    by (rule round_half_up_nearest)
  moreover have "rounded_at 6 (ilog 10 (of_int (round_half_up d2) * num_val s) - (int 6 - 1))
      (of_int (round_half_up d2) * num_val s) d3"
    unfolding d3_def by (rule round_sig_rounded)
  moreover have
    "rounded_at 6 (ilog 10 (offset_of char + d3) - (int 6 - 1)) (offset_of char + d3) r"
    unfolding r_def by (rule round_sig_rounded)
  ultimately show ?thesis
    using c unfolding v_def by blast
qed

text \<open>The five roundings determine \<open>r\<close>.\<close>

lemma chain_value:
  assumes "rounded_at p e1 a d1" and "rounded_at p e2 (d1 / st) d2" and "nearest_half_up d2 n"
    and "rounded_at p e3 (of_int n * st) d3" and "rounded_at p e4 (off + d3) r"
    and "rounded_at p k1 a a1" and "rounded_at p k2 (a1 / st) a2" and "nearest_half_up a2 m"
    and "rounded_at p k3 (of_int m * st) a3" and "rounded_at p k4 (off + a3) b"
  shows "r = b"
proof -
  have 1: "d1 = a1"
    using assms(1,6) by (rule rounded_at_unique)
  have 2: "d2 = a2"
    using assms(2,7) unfolding 1 by (rule rounded_at_unique)
  have 3: "n = m"
    using assms(3,8) unfolding 2 by (rule nearest_half_up_unique)
  have 4: "d3 = a3"
    using assms(4,9) unfolding 3 by (rule rounded_at_unique)
  show ?thesis
    using assms(5,10) unfolding 4 by (rule rounded_at_unique)
qed

text \<open>When nothing is lost to the 6 digits, \<open>r\<close> is the step multiple nearest to the
  clamped value.\<close>

lemma snapped_exact:
  assumes "format_in (format char) NUMBER_TYPES" and "Decimal L val = Inr d"
    and "minStep char = Some s" and "num_val s \<noteq> 0"
    and "fits 6 k1 (clamped (minValue char) (maxValue char) d - offset_of char)"
    and "fits 6 k2 ((clamped (minValue char) (maxValue char) d - offset_of char) / num_val s)"
    and "nearest_half_up
           ((clamped (minValue char) (maxValue char) d - offset_of char) / num_val s) m"
    and "fits 6 k3 (of_int m * num_val s)"
    and "fits 6 k4 (offset_of char + of_int m * num_val s)"
  shows "check_convert_value L val char
     = cast (format char) (offset_of char + of_int m * num_val s)"
proof -
  define v where "v = clamped (minValue char) (maxValue char) d"
  have e1: "round_sig 6 (v - offset_of char) = v - offset_of char"
    using assms(5) unfolding v_def by (rule fits_round_sig)
  have e2: "round_sig 6 ((v - offset_of char) / num_val s) = (v - offset_of char) / num_val s"
    using assms(6) unfolding v_def by (rule fits_round_sig)
  have h: "round_half_up ((v - offset_of char) / num_val s) = m"
    using round_half_up_nearest assms(7) unfolding v_def by (rule nearest_half_up_unique)
  have e3: "round_sig 6 (of_int m * num_val s) = of_int m * num_val s"
    using assms(8) by (rule fits_round_sig)
  have e4: "round_sig 6 (offset_of char + of_int m * num_val s)
      = offset_of char + of_int m * num_val s"
    using assms(9) by (rule fits_round_sig)
  have "clamp char d = v"
    unfolding v_def by (rule clamp_clamped)
  then show ?thesis
    by (simp add: convert_number_step [OF assms(1-3)] snap_value [OF assms(4)] e1 e2 h e3 e4)
qed

lemma nearest_multiple:
  assumes "nearest_half_up ((v - off) / st) m" and "st \<noteq> 0"
  shows "step_multiple (off + of_int m * st) off st"
    and "\<bar>v - (off + of_int m * st)\<bar> \<le> \<bar>st\<bar> / 2"
proof -
  show "step_multiple (off + of_int m * st) off st"
    using assms(2) by (simp add: step_multiple_def)
  have "\<bar>(v - off) / st - of_int m\<bar> \<le> 1 / 2"
    using assms(1) by (auto simp add: nearest_half_up_def)
  moreover have "(v - off) / st - of_int m = (v - (off + of_int m * st)) / st"
    using assms(2) by (simp add: field_simps)
  ultimately have "\<bar>v - (off + of_int m * st)\<bar> / \<bar>st\<bar> \<le> 1 / 2"
    by simp
  then show "\<bar>v - (off + of_int m * st)\<bar> \<le> \<bar>st\<bar> / 2"
    using assms(2) by (simp add: field_simps)
qed

lemma lenient_zero_step:
  assumes "format_in (format char) NUMBER_TYPES" and "Decimal L val = Inr d"
    and "minStep char = Some s" and "num_val s = 0"
  shows "check_convert_value L val char
     = Inl (if round_sig 6 (clamp char d - offset_of char) = 0 then InvalidOperation
            else DivisionByZero)"
  by (simp add: convert_number_step [OF assms(1-3)] snap_zero_step [OF assms(4)])

subsection \<open>The clamp\<close>

lemma capped_95_numeric: "format_in (format capped_95) NUMBER_TYPES"
  by (simp add: capped_95_def percent_def format_in_def NUMBER_TYPES_def INTEGER_TYPES_def)

lemma capped_95_150: "check_convert_value L (PInt 150) capped_95 = Inr (PInt 100)"
proof -
  have d: "Decimal L (PInt 150) = Inr 150"
    by simp
  have s: "minStep capped_95 = Some (PyInt 10)"
    by (simp add: capped_95_def percent_def)
  have z: "num_val (PyInt 10) \<noteq> 0"
    by simp
  have c: "clamp capped_95 150 = 95"
    by (simp add: clamp_def capped_95_def percent_def)
  have o: "offset_of capped_95 = 0"
    by (simp add: offset_of_def capped_95_def percent_def)
  have r1: "round_sig 6 95 = 95"
    by (simp add: round_sig_def ilog_def ndigits.simps round_half_up_def)
  have r2: "round_sig 6 (19 / 2) = 19 / 2"
    by (simp add: round_sig_def ilog_def ndigits.simps round_half_up_def)
  have h: "round_half_up (19 / 2) = 10"
    by (simp add: round_half_up_def)
  have r3: "round_sig 6 100 = 100"
    by (simp add: round_sig_def ilog_def ndigits.simps round_half_up_def)
  have k: "cast (format capped_95) 100 = Inr (PInt 100)"
    by (simp add: capped_95_def percent_def cast_def format_in_def INTEGER_TYPES_def
        round_half_even_def)
  show ?thesis
    by (simp add: convert_number_step [OF capped_95_numeric d s] snap_value [OF z] c o r1 r2 h
        r3 k)
qed

text \<open>
  C9, as the claim states it, fails: with \<open>minValue = 0\<close>, \<open>maxValue = 95\<close> and
  \<open>minStep = 10\<close> the input 150 is clamped to 95 and then snapped to the step, and the
  result is 100, beyond the maximum.
\<close>

theorem lenient_clamps_counterexample:
  "format capped_95 = Some fmt_uint8 \<and> minValue capped_95 = Some (PyInt 0)
   \<and> maxValue capped_95 = Some (PyInt 95) \<and> minStep capped_95 = Some (PyInt 10)
   \<and> check_convert_value plain_library (PInt 150) capped_95 = Inr (PInt 100)
   \<and> (95 :: int) < 100"
  by (simp add: capped_95_150) (simp add: capped_95_def percent_def)

text \<open>
  C9, amended. For a numeric format and an input that \<open>Decimal\<close> reads as \<open>d\<close>:
  without a step the result is the cast to the format of \<open>d\<close> clamped (above the maximum:
  the maximum; below the minimum: the minimum; else \<open>d\<close>), and the cast of a bound that
  is a value of the format is that bound; with a step that is not 0 the clamped value is
  then snapped to the step by the five roundings, which can take it beyond the bound. In
  no case is the result a \<open>FormatError\<close>, and it does not depend on \<open>valid_values\<close> and
  \<open>valid_values_range\<close>. With a maximum of 100 and no step the input 150 gives 100.
\<close>

theorem lenient_clamps:
  "format_in (format char) NUMBER_TYPES \<Longrightarrow> Decimal L val = Inr d \<Longrightarrow>
     (minStep char = None \<longrightarrow>
        check_convert_value L val char
          = cast (format char) (clamped (minValue char) (maxValue char) d))
     \<and> (native (format char) m \<longrightarrow> cast (format char) (num_val m) = Inr (PNum m))
     \<and> (minStep char = Some s \<and> num_val s \<noteq> 0 \<longrightarrow>
          (\<exists>e1 d1 e2 d2 n e3 d3 e4 r.
             rounded_at 6 e1 (clamped (minValue char) (maxValue char) d - offset_of char) d1
             \<and> rounded_at 6 e2 (d1 / num_val s) d2
             \<and> nearest_half_up d2 n
             \<and> rounded_at 6 e3 (of_int n * num_val s) d3
             \<and> rounded_at 6 e4 (offset_of char + d3) r
             \<and> check_convert_value L val char = cast (format char) r))
     \<and> \<not> rejected (check_convert_value L val char)
     \<and> check_convert_value L val (char\<lparr>valid_values := vv, valid_values_range := vr\<rparr>)
          = check_convert_value L val char"
proof (intro conjI impI)
  assume n: "format_in (format char) NUMBER_TYPES" and d: "Decimal L val = Inr d"
  show "\<not> rejected (check_convert_value L val char)"
    by (rule convert_not_rejected [OF n d])
  show "check_convert_value L val (char\<lparr>valid_values := vv, valid_values_range := vr\<rparr>)
          = check_convert_value L val char"
    by (rule check_convert_ignores_enumeration)
  {
    assume "minStep char = None"
    from convert_number_no_step [OF n d this]
    show "check_convert_value L val char
          = cast (format char) (clamped (minValue char) (maxValue char) d)"
      unfolding clamp_clamped .
  }
  {
    assume "native (format char) m"
    then show "cast (format char) (num_val m) = Inr (PNum m)"
      by (rule cast_native)
  }
  {
    assume "minStep char = Some s \<and> num_val s \<noteq> 0"
    then have s: "minStep char = Some s" and z: "num_val s \<noteq> 0"
      by simp_all
    show "\<exists>e1 d1 e2 d2 n e3 d3 e4 r.
             rounded_at 6 e1 (clamped (minValue char) (maxValue char) d - offset_of char) d1
             \<and> rounded_at 6 e2 (d1 / num_val s) d2
             \<and> nearest_half_up d2 n
             \<and> rounded_at 6 e3 (of_int n * num_val s) d3
             \<and> rounded_at 6 e4 (offset_of char + d3) r
             \<and> check_convert_value L val char = cast (format char) r"
      by (rule snapped_chain [OF n d s z])
  }
qed

theorem lenient_clamps_witness:
  "format_in (format capped) NUMBER_TYPES
   \<and> Decimal plain_library (PInt 150) = Inr 150
   \<and> minStep capped = None
   \<and> minValue capped = None \<and> maxValue capped = Some (PyInt 100)
   \<and> clamped None (Some (PyInt 100)) 150 = 100
   \<and> native (format capped) (PyInt 100)
   \<and> check_convert_value plain_library (PInt 150) capped = Inr (PInt 100)
   \<and> \<not> rejected (check_convert_value plain_library (PInt 150) capped)
   \<and> check_convert_value plain_library (PInt 150)
        (capped\<lparr>valid_values := Some [PyInt 1, PyInt 2, PyInt 5], valid_values_range := None\<rparr>)
       = Inr (PInt 100)
   \<and> format_in (format capped_95) NUMBER_TYPES
   \<and> minStep capped_95 = Some (PyInt 10) \<and> num_val (PyInt 10) \<noteq> 0
   \<and> clamped (minValue capped_95) (maxValue capped_95) 150 = 95
   \<and> check_convert_value plain_library (PInt 150) capped_95 = cast (format capped_95) 100"
proof -
  have n: "format_in (format capped) NUMBER_TYPES"
    by (simp add: capped_def percent_def format_in_def NUMBER_TYPES_def INTEGER_TYPES_def)
  have d: "Decimal plain_library (PInt 150) = Inr 150"
    by simp
  have s: "minStep capped = None"
    by (simp add: capped_def)
  have lo: "minValue capped = None"
    by (simp add: capped_def)
  have hi: "maxValue capped = Some (PyInt 100)"
    by (simp add: capped_def percent_def)
  have c: "clamped None (Some (PyInt 100)) 150 = 100"
    by (simp add: clamped_def above_def bound_def)
  have v: "native (format capped) (PyInt 100)"
    by (simp add: native_def capped_def percent_def format_in_def INTEGER_TYPES_def)
  note t = lenient_clamps [OF n d, where m = "PyInt 100"
      and vv = "Some [PyInt 1, PyInt 2, PyInt 5]" and vr = None]
  have k: "cast (format capped) (num_val (PyInt 100)) = Inr (PInt 100)"
    using mp [OF conjunct1 [OF conjunct2 [OF t]] v] .
  have r: "check_convert_value plain_library (PInt 150) capped = Inr (PInt 100)"
    using mp [OF conjunct1 [OF t] s] k by (simp add: lo hi c)
  have j: "\<not> rejected (check_convert_value plain_library (PInt 150) capped)"
    using conjunct1 [OF conjunct2 [OF conjunct2 [OF conjunct2 [OF t]]]] .
  have e: "check_convert_value plain_library (PInt 150)
        (capped\<lparr>valid_values := Some [PyInt 1, PyInt 2, PyInt 5], valid_values_range := None\<rparr>)
       = Inr (PInt 100)"
    using conjunct2 [OF conjunct2 [OF conjunct2 [OF conjunct2 [OF t]]]] by (simp add: r)
  have s': "minStep capped_95 = Some (PyInt 10)"
    by (simp add: capped_95_def percent_def)
  have z: "num_val (PyInt 10) \<noteq> 0"
    by simp
  have c': "clamped (minValue capped_95) (maxValue capped_95) 150 = 95"
    by (simp add: clamped_def above_def bound_def capped_95_def percent_def)
  have o: "offset_of capped_95 = 0"
    by (simp add: offset_of_def capped_95_def percent_def)
  have a1: "rounded_at 6 (- 4) 95 95"
    by (simp add: rounded_at_def nearest_half_up_def)
  have a2: "rounded_at 6 (- 5) (95 / num_val (PyInt 10)) (19 / 2)"
    by (simp add: rounded_at_def nearest_half_up_def)
  have a3: "nearest_half_up (19 / 2) 10"
    by (simp add: nearest_half_up_def)
  have a4: "rounded_at 6 (- 3) (of_int 10 * num_val (PyInt 10)) 100"
    by (simp add: rounded_at_def nearest_half_up_def)
  have a5: "rounded_at 6 (- 3) (0 + 100) 100"
    by (simp add: rounded_at_def nearest_half_up_def)
  from mp [OF conjunct1 [OF conjunct2 [OF conjunct2
        [OF lenient_clamps [OF capped_95_numeric d, where s = "PyInt 10"]]]] conjI [OF s' z]]
  obtain e1 d1 e2 d2 i e3 d3 e4 x where
    b: "rounded_at 6 e1 (95 - 0) d1" "rounded_at 6 e2 (d1 / num_val (PyInt 10)) d2"
      "nearest_half_up d2 i" "rounded_at 6 e3 (of_int i * num_val (PyInt 10)) d3"
      "rounded_at 6 e4 (0 + d3) x"
    and y: "check_convert_value plain_library (PInt 150) capped_95 = cast (format capped_95) x"
    unfolding c' o by blast
  have "x = 100"
    using b(1) [simplified] b(2-5) a1 a2 a3 a4 a5 by (rule chain_value)
  with y have r': "check_convert_value plain_library (PInt 150) capped_95
      = cast (format capped_95) 100"
    by simp
  show ?thesis
    by (intro conjI n d s lo hi c v r j e capped_95_numeric s' z c' r')
qed

subsection \<open>The step\<close>

lemma thirds_numeric: "format_in (format thirds) NUMBER_TYPES"
  by (simp add: thirds_def capped_def percent_def format_in_def NUMBER_TYPES_def
      INTEGER_TYPES_def)

lemma thirds_1234567: "check_convert_value L (PInt 1234567) thirds = Inr (PInt 1234570)"
proof -
  have d: "Decimal L (PInt 1234567) = Inr 1234567"
    by simp
  have s: "minStep thirds = Some (PyInt 3)"
    by (simp add: thirds_def)
  have z: "num_val (PyInt 3) \<noteq> 0"
    by simp
  have c: "clamp thirds 1234567 = 1234567"
    by (simp add: clamp_def thirds_def capped_def)
  have o: "offset_of thirds = 0"
    by (simp add: offset_of_def thirds_def capped_def)
  have r1: "round_sig 6 1234567 = 1234570"
    by (simp add: round_sig_def ilog_def ndigits.simps round_half_up_def)
  have r2: "round_sig 6 (1234570 / 3) = 411523"
    by (simp add: round_sig_def ilog_def ndigits.simps round_half_up_def)
  have h: "round_half_up 411523 = 411523"
    by (simp add: round_half_up_def)
  have r3: "round_sig 6 1234569 = 1234570"
    by (simp add: round_sig_def ilog_def ndigits.simps round_half_up_def)
  have r4: "round_sig 6 1234570 = 1234570"
    by (simp add: round_sig_def ilog_def ndigits.simps round_half_up_def)
  have k: "cast (format thirds) 1234570 = Inr (PInt 1234570)"
    by (simp add: thirds_def cast_def format_in_def INTEGER_TYPES_def round_half_even_def)
  show ?thesis
    by (simp add: convert_number_step [OF thirds_numeric d s] snap_value [OF z] c o r1 r2 h r3
        r4 k)
qed

lemma thirds_zero_step:
  "check_convert_value L (PInt 5) (thirds\<lparr>minStep := Some (PyInt 0)\<rparr>) = Inl DivisionByZero"
proof -
  have n: "format_in (format (thirds\<lparr>minStep := Some (PyInt 0)\<rparr>)) NUMBER_TYPES"
    using thirds_numeric by simp
  have d: "Decimal L (PInt 5) = Inr 5"
    by simp
  have r: "round_sig 6 5 = 5"
    by (simp add: round_sig_def ilog_def ndigits.simps round_half_up_def)
  show ?thesis
    using lenient_zero_step [OF n d, of "PyInt 0"]
    by (simp add: clamp_def offset_of_def thirds_def capped_def r)
qed

text \<open>
  C4, as the claim states it, fails: with a step of 3 and no bounds the input 1234567
  gives 1234570, which is no multiple of 3 (the nearest is 1234566), the difference and
  the product being rounded to 6 digits; and with a step of 0 the division raises
  \<open>DivisionByZero\<close>.
\<close>

theorem lenient_snaps_counterexample:
  "format thirds = Some fmt_uint32 \<and> minValue thirds = None \<and> maxValue thirds = None
   \<and> minStep thirds = Some (PyInt 3)
   \<and> check_convert_value plain_library (PInt 1234567) thirds = Inr (PInt 1234570)
   \<and> \<not> step_multiple 1234570 0 3
   \<and> step_multiple 1234566 0 3 \<and> \<bar>1234567 - 1234566 :: rat\<bar> < \<bar>1234567 - 1234570\<bar>
   \<and> check_convert_value plain_library (PInt 5) (thirds\<lparr>minStep := Some (PyInt 0)\<rparr>)
       = Inl DivisionByZero"
  by (simp add: thirds_1234567 thirds_zero_step)
    (simp add: thirds_def capped_def percent_def step_multiple_def)

text \<open>
  C4, amended. For a numeric format with a step that is not 0 and an input that
  \<open>Decimal\<close> reads as \<open>d\<close>, the lenient pipeline returns the cast to the format of
  \<open>offset + round_half_up((v - offset) / step) * step\<close>, where \<open>v\<close> is \<open>d\<close> after the
  clamp, \<open>offset\<close> is \<open>minValue\<close> or 0, the difference, the quotient, the product and the
  sum are each rounded half up to 6 significant digits, and \<open>round_half_up\<close> is the nearest
  integer, ties away from zero. When the four of them have at most 6 significant digits
  the result is the step multiple \<open>offset + m * step\<close> nearest to \<open>v\<close>, ties away from
  zero. With 0, 100 and 10 the input 55 gives 60.
\<close>

theorem lenient_snaps:
  "format_in (format char) NUMBER_TYPES \<Longrightarrow> Decimal L val = Inr d \<Longrightarrow>
   minStep char = Some s \<Longrightarrow> num_val s \<noteq> 0 \<Longrightarrow>
     (\<exists>e1 d1 e2 d2 n e3 d3 e4 r.
        rounded_at 6 e1 (clamped (minValue char) (maxValue char) d - offset_of char) d1
        \<and> rounded_at 6 e2 (d1 / num_val s) d2
        \<and> nearest_half_up d2 n
        \<and> rounded_at 6 e3 (of_int n * num_val s) d3
        \<and> rounded_at 6 e4 (offset_of char + d3) r
        \<and> check_convert_value L val char = cast (format char) r)
     \<and> (fits 6 k1 (clamped (minValue char) (maxValue char) d - offset_of char)
          \<and> fits 6 k2
                ((clamped (minValue char) (maxValue char) d - offset_of char) / num_val s)
          \<and> nearest_half_up
                ((clamped (minValue char) (maxValue char) d - offset_of char) / num_val s) m
          \<and> fits 6 k3 (of_int m * num_val s)
          \<and> fits 6 k4 (offset_of char + of_int m * num_val s) \<longrightarrow>
            check_convert_value L val char
              = cast (format char) (offset_of char + of_int m * num_val s))"
proof (intro conjI impI)
  assume n: "format_in (format char) NUMBER_TYPES" and d: "Decimal L val = Inr d"
    and s: "minStep char = Some s" and z: "num_val s \<noteq> 0"
  show "\<exists>e1 d1 e2 d2 n e3 d3 e4 r.
        rounded_at 6 e1 (clamped (minValue char) (maxValue char) d - offset_of char) d1
        \<and> rounded_at 6 e2 (d1 / num_val s) d2
        \<and> nearest_half_up d2 n
        \<and> rounded_at 6 e3 (of_int n * num_val s) d3
        \<and> rounded_at 6 e4 (offset_of char + d3) r
        \<and> check_convert_value L val char = cast (format char) r"
    by (rule snapped_chain [OF n d s z])
  assume f: "fits 6 k1 (clamped (minValue char) (maxValue char) d - offset_of char)
          \<and> fits 6 k2
                ((clamped (minValue char) (maxValue char) d - offset_of char) / num_val s)
          \<and> nearest_half_up
                ((clamped (minValue char) (maxValue char) d - offset_of char) / num_val s) m
          \<and> fits 6 k3 (of_int m * num_val s)
          \<and> fits 6 k4 (offset_of char + of_int m * num_val s)"
  then have f1: "fits 6 k1 (clamped (minValue char) (maxValue char) d - offset_of char)"
    and f2: "fits 6 k2
        ((clamped (minValue char) (maxValue char) d - offset_of char) / num_val s)"
    and h: "nearest_half_up
        ((clamped (minValue char) (maxValue char) d - offset_of char) / num_val s) m"
    and f3: "fits 6 k3 (of_int m * num_val s)"
    and f4: "fits 6 k4 (offset_of char + of_int m * num_val s)"
    by simp_all
  show "check_convert_value L val char
      = cast (format char) (offset_of char + of_int m * num_val s)"
    by (rule snapped_exact [OF n d s z f1 f2 h f3 f4])
qed

theorem lenient_snaps_witness:
  "format_in (format percent) NUMBER_TYPES
   \<and> Decimal plain_library (PInt 55) = Inr 55
   \<and> minStep percent = Some (PyInt 10) \<and> num_val (PyInt 10) \<noteq> 0
   \<and> clamped (minValue percent) (maxValue percent) 55 = 55 \<and> offset_of percent = 0
   \<and> fits 6 0 55 \<and> fits 6 (- 1) (55 / 10) \<and> nearest_half_up (55 / 10) 6 \<and> fits 6 0 60
   \<and> check_convert_value plain_library (PInt 55) percent = Inr (PInt 60)
   \<and> check_convert_value plain_library (PInt 55) percent = cast (format percent) 60"
proof -
  have n: "format_in (format percent) NUMBER_TYPES"
    by (simp add: percent_def format_in_def NUMBER_TYPES_def INTEGER_TYPES_def)
  have d: "Decimal plain_library (PInt 55) = Inr 55"
    by simp
  have s: "minStep percent = Some (PyInt 10)"
    by (simp add: percent_def)
  have z: "num_val (PyInt 10) \<noteq> 0"
    by simp
  have c: "clamped (minValue percent) (maxValue percent) 55 = 55"
    by (simp add: clamped_def above_def below_def percent_def)
  have o: "offset_of percent = 0"
    by (simp add: offset_of_def percent_def)
  have f1: "fits 6 0 55"
    by (simp add: fits_def)
  have f2: "fits 6 (- 1) (55 / 10)"
    by (simp add: fits_def power_int_minus)
  have h: "nearest_half_up (55 / 10) 6"
    by (simp add: nearest_half_up_def)
  have f3: "fits 6 0 60"
    by (simp add: fits_def)
  have k: "cast (format percent) 60 = Inr (PInt 60)"
    by (simp add: percent_def cast_def format_in_def INTEGER_TYPES_def round_half_even_def)
  note t = lenient_snaps [OF n d s z, where ?k1.0 = 0 and ?k2.0 = "- 1" and m = 6
      and ?k3.0 = 0 and ?k4.0 = 0]
  have "fits 6 0 (clamped (minValue percent) (maxValue percent) 55 - offset_of percent)
      \<and> fits 6 (- 1)
          ((clamped (minValue percent) (maxValue percent) 55 - offset_of percent)
            / num_val (PyInt 10))
      \<and> nearest_half_up
          ((clamped (minValue percent) (maxValue percent) 55 - offset_of percent)
            / num_val (PyInt 10)) 6
      \<and> fits 6 0 (of_int 6 * num_val (PyInt 10))
      \<and> fits 6 0 (offset_of percent + of_int 6 * num_val (PyInt 10))"
    using f1 f2 h f3 by (simp add: c o)
  from mp [OF conjunct2 [OF t] this]
  have r: "check_convert_value plain_library (PInt 55) percent = Inr (PInt 60)"
    by (simp add: o k)
  have a1: "rounded_at 6 (- 4) 55 55"
    by (simp add: rounded_at_def nearest_half_up_def)
  have a2: "rounded_at 6 (- 5) (55 / num_val (PyInt 10)) (11 / 2)"
    by (simp add: rounded_at_def nearest_half_up_def)
  have a3: "nearest_half_up (11 / 2) 6"
    by (simp add: nearest_half_up_def)
  have a4: "rounded_at 6 (- 4) (of_int 6 * num_val (PyInt 10)) 60"
    by (simp add: rounded_at_def nearest_half_up_def)
  have a5: "rounded_at 6 (- 4) (0 + 60) 60"
    by (simp add: rounded_at_def nearest_half_up_def)
  from conjunct1 [OF t]
  obtain e1 d1 e2 d2 i e3 d3 e4 x where
    b: "rounded_at 6 e1 (55 - 0) d1" "rounded_at 6 e2 (d1 / num_val (PyInt 10)) d2"
      "nearest_half_up d2 i" "rounded_at 6 e3 (of_int i * num_val (PyInt 10)) d3"
      "rounded_at 6 e4 (0 + d3) x"
    and y: "check_convert_value plain_library (PInt 55) percent = cast (format percent) x"
    unfolding c o by blast
  have "x = 60"
    using b(1) [simplified] b(2-5) a1 a2 a3 a4 a5 by (rule chain_value)
  with y have r': "check_convert_value plain_library (PInt 55) percent = cast (format percent) 60"
    by simp
  show ?thesis
    by (intro conjI n d s z c o f1 f2 h f3 r r')
qed

section \<open>The strict step check\<close>

lemma trunc_of_int: "trunc (of_int k) = k"
  by (simp add: trunc_def)

lemma trunc_abs_le: "of_int \<bar>trunc q\<bar> \<le> \<bar>q\<bar>"
proof (cases "0 \<le> q")
  case True
  then show ?thesis
    by (simp add: trunc_def)
next
  case False
  then have "0 \<le> \<lfloor>- q\<rfloor>"
    by simp
  moreover have "of_int \<lfloor>- q\<rfloor> \<le> - q"
    by (rule of_int_floor_le)
  ultimately show ?thesis
    using False by (simp add: trunc_def)
qed

lemma integral_iff: "q = of_int (trunc q) \<longleftrightarrow> of_int \<lfloor>q\<rfloor> = q"
proof
  assume a: "q = of_int (trunc q)"
  have "\<lfloor>(of_int (trunc q) :: rat)\<rfloor> = trunc q"
    by (rule floor_of_int)
  with a show "of_int \<lfloor>q\<rfloor> = q"
    by (metis (no_types))
next
  assume a: "of_int \<lfloor>q\<rfloor> = q"
  have "trunc (of_int \<lfloor>q\<rfloor>) = \<lfloor>q\<rfloor>"
    by (rule trunc_of_int)
  with a show "q = of_int (trunc q)"
    by (metis (no_types))
qed

lemma dec_rem_multiple:
  assumes "b \<noteq> 0" and "\<bar>a / b\<bar> < 10 ^ 28"
  shows "dec_rem a b = Inr (a - of_int (trunc (a / b)) * b)"
    and "a - of_int (trunc (a / b)) * b = 0 \<longleftrightarrow> of_int \<lfloor>a / b\<rfloor> * b = a"
proof -
  have "of_int \<bar>trunc (a / b)\<bar> < (10 ^ 28 :: rat)"
    using trunc_abs_le [of "a / b"] assms(2) by (rule le_less_trans)
  then have "\<bar>trunc (a / b)\<bar> < 10 ^ 28"
    by (metis of_int_less_iff of_int_numeral of_int_power)
  with assms(1) show "dec_rem a b = Inr (a - of_int (trunc (a / b)) * b)"
    by (simp add: dec_rem_def Let_def)
  have "a - of_int (trunc (a / b)) * b = 0 \<longleftrightarrow> a / b = of_int (trunc (a / b))"
    by (simp only: right_minus_eq nonzero_divide_eq_eq [OF assms(1)])
  also have "\<dots> \<longleftrightarrow> of_int \<lfloor>a / b\<rfloor> = a / b"
    by (rule integral_iff)
  also have "\<dots> \<longleftrightarrow> of_int \<lfloor>a / b\<rfloor> * b = a"
    by (rule nonzero_eq_divide_eq [OF assms(1)])
  finally show "a - of_int (trunc (a / b)) * b = 0 \<longleftrightarrow> of_int \<lfloor>a / b\<rfloor> * b = a" .
qed

lemma step_check_exact:
  assumes "minStep self = Some s" and "num_val s \<noteq> 0" and "exact_operands self x s"
    and "\<bar>(num_val x - offset_of self) / num_val s\<bar> < 10 ^ 28"
  shows "step_check self x
     = (if step_multiple (num_val x) (offset_of self) (num_val s) then None
        else Some (FormatError INVALID_VALUE))"
proof -
  from assms(3) obtain tmp where
    t: "(case minValue self of None \<Rightarrow> Inr x | Some m \<Rightarrow> num_sub x m) = Inr tmp"
    and d: "Decimal_of_str_of tmp = num_val x - offset_of self"
    and e: "Decimal_of_str_of s = num_val s"
    by (auto simp add: exact_operands_def split: sum.splits)
  note r = dec_rem_multiple [OF assms(2) assms(4)]
  show ?thesis
    using r(2) by (simp add: step_check_def assms(1) t d e r(1) step_multiple_def)
qed

lemma exact_operands_ints:
  assumes "minValue self = None \<or> (\<exists>m. minValue self = Some (PyInt m))"
  shows "exact_operands self (PyInt v) (PyInt s)"
  using assms by (auto simp add: exact_operands_def offset_of_def)

lemma numeric_full_list:
  "format_in f NUMBER_TYPES \<Longrightarrow>
     format_in f [fmt_uint64, fmt_uint32, fmt_uint16, fmt_uint8, fmt_int, fmt_float]"
  by (simp add: NUMBER_TYPES_def INTEGER_TYPES_def)

lemma check_numeric_not_multiple:
  assumes "format_in (format self) NUMBER_TYPES"
    and "minStep self = Some s" and "num_val s \<noteq> 0" and "exact_operands self x s"
    and "\<bar>(num_val x - offset_of self) / num_val s\<bar> < 10 ^ 28"
    and "\<not> step_multiple (num_val x) (offset_of self) (num_val s)"
  shows "check_numeric self (PNum x) = Some (FormatError INVALID_VALUE)"
  using assms(6)
  by (simp add: check_numeric_def numeric_full_list [OF assms(1)]
      step_check_exact [OF assms(2-5)])

lemma check_numeric_multiple:
  assumes "format_in (format self) NUMBER_TYPES"
    and "minStep self = Some s" and "num_val s \<noteq> 0" and "exact_operands self x s"
    and "\<bar>(num_val x - offset_of self) / num_val s\<bar> < 10 ^ 28"
    and "step_multiple (num_val x) (offset_of self) (num_val s)"
    and "within_constraints self x"
  shows "check_numeric self (PNum x) = None"
  using assms(6,7)
  by (auto simp add: check_numeric_def numeric_full_list [OF assms(1)]
      step_check_exact [OF assms(2-5)] within_constraints_def split: option.splits)

text \<open>
  The difference \<^verbatim>\<open>tmp -= self.minValue\<close> of line 178 is Python's own: with a float
  operand it is rounded to binary64 before \<open>Decimal\<close> sees it. \<open>10^16 - 1\<close> is no
  binary64 number, and lies halfway between its two neighbours.
\<close>

lemma float64_1: "float64 1 = 1"
  by (simp add: float64_def round_binary_def ilog_def ndigits.simps round_half_even_def)

lemma ndigits_2_9999999999999999: "ndigits 2 9999999999999999 = 54"
  by (simp add: ndigits.simps)

lemma float64_9999999999999999: "float64 9999999999999999 = 10000000000000000"
  by (simp add: float64_def round_binary_def ilog_def ndigits_2_9999999999999999
      round_half_even_def)

lemma ndigits_2_1e16: "ndigits 2 10000000000000000 = 54"
  by (simp add: ndigits.simps)

lemma float64_1e16: "float64 10000000000000000 = 10000000000000000"
  by (simp add: float64_def round_binary_def ilog_def ndigits_2_1e16 round_half_even_def)

lemma ndigits_2_2e16: "ndigits 2 20000000000000000 = 55"
  by (simp add: ndigits.simps)

lemma float64_2e16: "float64 20000000000000000 = 20000000000000000"
  by (simp add: float64_def round_binary_def ilog_def ndigits_2_2e16 round_half_even_def)

lemma ndigits_10_1e16: "ndigits 10 10000000000000000 = 17"
  by (simp add: ndigits.simps)

lemma float_repr_1e16: "float_repr 10000000000000000 = 10000000000000000"
proof -
  have "repr_at 1 10000000000000000 = Some 10000000000000000"
    by (simp add: repr_at_def ilog_def ndigits_10_1e16 float64_1e16 float64_2e16)
  then show ?thesis
    by (simp add: float_repr_def eval_nat_numeral(1) numeral_eq_Suc)
qed

lemma float_stepped_accepts:
  "set_value L float_stepped (PFloat 10000000000000000)
     = (None, float_stepped\<lparr>value' := PFloat 10000000000000000\<rparr>)"
  by (simp add: set_value_eval float_stepped_def capped_def percent_def int_to_float_def
      to_float_def float64_1 float64_9999999999999999 float_repr_1e16)

text \<open>
  \<^verbatim>\<open>Decimal.__mod__\<close> raises \<open>InvalidOperation\<close>, which is no \<open>FormatError\<close>, when the
  integer quotient has more than 28 digits and when the step is 0.
\<close>

lemma step_quotient_too_long:
  "set_value L even_only (PInt 20000000000000000000000000001)
     = (Some InvalidOperation, even_only)"
  by (simp add: set_value_eval even_only_def capped_def percent_def)

lemma step_zero:
  "set_value L (even_only\<lparr>minStep := Some (PyInt 0)\<rparr>) (PInt 4)
     = (Some InvalidOperation, even_only\<lparr>minStep := Some (PyInt 0)\<rparr>)"
  by (simp add: set_value_eval even_only_def capped_def percent_def)

text \<open>
  C5. Where the difference of line 178 is not exact the check is not the one the claim
  states: with the float format, \<open>minValue = 1\<close> and \<open>minStep = 10\<close>, the float \<open>1e16\<close>
  is written and stored, though \<open>(10^16 - 1) mod 10\<close> is 9. The difference \<open>1e16 - 1\<close>
  is taken in binary64, where it is \<open>1e16\<close> again, before \<open>Decimal\<close> is applied, against
  the comment of line 180 and unlike \<^verbatim>\<open>check_convert_value\<close>, which subtracts in
  \<open>Decimal\<close>.
\<close>

theorem strict_step_float_difference:
  "format float_stepped = Some fmt_float \<and> paired_write \<in> set (perms float_stepped)
   \<and> minValue float_stepped = Some (PyInt 1) \<and> minStep float_stepped = Some (PyInt 10)
   \<and> offset_of float_stepped = 1
   \<and> \<not> step_multiple 10000000000000000 1 10
   \<and> set_value plain_library float_stepped (PFloat 10000000000000000)
       = (None, float_stepped\<lparr>value' := PFloat 10000000000000000\<rparr>)"
  by (simp add: float_stepped_accepts)
    (simp add: float_stepped_def capped_def percent_def offset_of_def step_multiple_def)

text \<open>
  For exact operands the check is the one stated. For a numeric format with a step that
  is not 0, the write permission given and the input converted to the number \<open>x\<close>, when
  the difference \<open>x - offset\<close> of line 178 and the two \<open>str()\<close> are exact (always so for
  ints) and the quotient has at most 28 digits: when \<open>(x - offset) mod step\<close> is not 0 in
  exact arithmetic, with \<open>offset\<close> the minimum or 0, \<open>set_value\<close> raises \<open>FormatError\<close>
  and stores nothing; when it is 0 and \<open>x\<close> passes the range and the enumeration, \<open>x\<close>
  is stored. With 0, 100 and 10 the input 55 fails and 50 is stored.
\<close>

theorem strict_step_multiple:
  "paired_write \<in> set (perms self) \<Longrightarrow> format_in (format self) NUMBER_TYPES \<Longrightarrow>
   convert_input L (format self) new_val = Inr (PNum x) \<Longrightarrow>
   minStep self = Some s \<Longrightarrow> num_val s \<noteq> 0 \<Longrightarrow> exact_operands self x s \<Longrightarrow>
   \<bar>(num_val x - offset_of self) / num_val s\<bar> < 10 ^ 28 \<Longrightarrow>
     (\<not> step_multiple (num_val x) (offset_of self) (num_val s) \<longrightarrow>
        set_value L self new_val = (Some (FormatError INVALID_VALUE), self))
     \<and> (step_multiple (num_val x) (offset_of self) (num_val s) \<and> within_constraints self x \<longrightarrow>
          set_value L self new_val = (None, self\<lparr>value' := PNum x\<rparr>))"
proof (intro conjI impI)
  assume w: "paired_write \<in> set (perms self)" and n: "format_in (format self) NUMBER_TYPES"
    and c: "convert_input L (format self) new_val = Inr (PNum x)"
    and s: "minStep self = Some s" and z: "num_val s \<noteq> 0" and e: "exact_operands self x s"
    and q: "\<bar>(num_val x - offset_of self) / num_val s\<bar> < 10 ^ 28"
  {
    assume "\<not> step_multiple (num_val x) (offset_of self) (num_val s)"
    from check_numeric_not_multiple [OF n s z e q this]
    show "set_value L self new_val = (Some (FormatError INVALID_VALUE), self)"
      by (simp add: set_value_def w c)
  }
  {
    assume "step_multiple (num_val x) (offset_of self) (num_val s) \<and> within_constraints self x"
    then have "check_numeric self (PNum x) = None"
      using check_numeric_multiple [OF n s z e q] by blast
    then show "set_value L self new_val = (None, self\<lparr>value' := PNum x\<rparr>)"
      by (simp add: set_value_def w c check_data_def check_string_def numeric_not_other [OF n])
  }
qed

theorem strict_step_multiple_witness:
  "paired_write \<in> set (perms percent) \<and> format_in (format percent) NUMBER_TYPES
   \<and> convert_input plain_library (format percent) (PInt 55) = Inr (PInt 55)
   \<and> convert_input plain_library (format percent) (PInt 50) = Inr (PInt 50)
   \<and> minStep percent = Some (PyInt 10) \<and> num_val (PyInt 10) \<noteq> 0
   \<and> exact_operands percent (PyInt 55) (PyInt 10) \<and> exact_operands percent (PyInt 50) (PyInt 10)
   \<and> \<bar>(num_val (PyInt 55) - offset_of percent) / num_val (PyInt 10)\<bar> < 10 ^ 28
   \<and> \<bar>(num_val (PyInt 50) - offset_of percent) / num_val (PyInt 10)\<bar> < 10 ^ 28
   \<and> \<not> step_multiple (num_val (PyInt 55)) (offset_of percent) (num_val (PyInt 10))
   \<and> step_multiple (num_val (PyInt 50)) (offset_of percent) (num_val (PyInt 10))
   \<and> within_constraints percent (PyInt 50)
   \<and> set_value plain_library percent (PInt 55) = (Some (FormatError INVALID_VALUE), percent)
   \<and> set_value plain_library percent (PInt 50) = (None, percent\<lparr>value' := PInt 50\<rparr>)"
proof -
  have w: "paired_write \<in> set (perms percent)"
    by (simp add: percent_def)
  have n: "format_in (format percent) NUMBER_TYPES"
    by (simp add: percent_def format_in_def NUMBER_TYPES_def INTEGER_TYPES_def)
  have c55: "convert_input plain_library (format percent) (PInt 55) = Inr (PInt 55)"
    by (simp add: convert_input_def format_in_def percent_def)
  have c50: "convert_input plain_library (format percent) (PInt 50) = Inr (PInt 50)"
    by (simp add: convert_input_def format_in_def percent_def)
  have s: "minStep percent = Some (PyInt 10)"
    by (simp add: percent_def)
  have z: "num_val (PyInt 10) \<noteq> 0"
    by simp
  have e55: "exact_operands percent (PyInt 55) (PyInt 10)"
    by (rule exact_operands_ints) (simp add: percent_def)
  have e50: "exact_operands percent (PyInt 50) (PyInt 10)"
    by (rule exact_operands_ints) (simp add: percent_def)
  have q55: "\<bar>(num_val (PyInt 55) - offset_of percent) / num_val (PyInt 10)\<bar> < 10 ^ 28"
    by (simp add: offset_of_def percent_def)
  have q50: "\<bar>(num_val (PyInt 50) - offset_of percent) / num_val (PyInt 10)\<bar> < 10 ^ 28"
    by (simp add: offset_of_def percent_def)
  have m55: "\<not> step_multiple (num_val (PyInt 55)) (offset_of percent) (num_val (PyInt 10))"
    by (simp add: step_multiple_def offset_of_def percent_def)
  have m50: "step_multiple (num_val (PyInt 50)) (offset_of percent) (num_val (PyInt 10))"
    by (simp add: step_multiple_def offset_of_def percent_def)
  have k50: "within_constraints percent (PyInt 50)"
    by (simp add: within_constraints_def percent_def)
  note r55 = mp [OF conjunct1 [OF strict_step_multiple [OF w n c55 s z e55 q55]] m55]
  note r50 = mp [OF conjunct2 [OF strict_step_multiple [OF w n c50 s z e50 q50]]
      conjI [OF m50 k50]]
  show ?thesis
    by (intro conjI w n c55 c50 s z e55 e50 q55 q50 m55 m50 k50 r55 r50)
qed

end
